theory Spec2Isabelle
  imports Complex_Main "HOL-Library.AList" "HOL-Library.Multiset"
begin

section \<open>Python values, exceptions and logging\<close>

text \<open>
  The two scripts, \<^verbatim>\<open>src/data/data_cleaning.py\<close> and \<^verbatim>\<open>src/data/data_preparation.py\<close>,
  are embedded function by function. Exceptions are values of type \<open>exc\<close>; a Python
  expression that may raise has type \<open>exc + 'a\<close> (\<open>Inl\<close> is the raised exception).
  \<open>SystemExit\<close> is the only exception here that is not a subclass of Python's
  \<open>Exception\<close>, so \<^verbatim>\<open>except Exception\<close> does not catch it.
\<close>

datatype exc = KeyError | ValueError | AttributeError | TypeError | YAMLError | OSError
  | SystemExit nat

fun is_Exception :: "exc \<Rightarrow> bool" where
  "is_Exception (SystemExit _) = False"
| "is_Exception _ = True"

definition bind_exc :: "exc + 'a \<Rightarrow> ('a \<Rightarrow> exc + 'b) \<Rightarrow> exc + 'b" where
  "bind_exc x f = (case x of Inl e \<Rightarrow> Inl e | Inr v \<Rightarrow> f v)"

definition map_exc :: "('a \<Rightarrow> 'b) \<Rightarrow> exc + 'a \<Rightarrow> exc + 'b" where
  "map_exc f x = (case x of Inl e \<Rightarrow> Inl e | Inr v \<Rightarrow> Inr (f v))"

datatype level = INFO | ERROR | CRITICAL

type_synonym log_entry = "level \<times> string"

section \<open>Cells, columns and frames\<close>

text \<open>
  A cell of a column is a string, a float or the missing marker \<open>NaN\<close> (numpy's
  \<open>nan\<close>). The float of a cell is kept as the exact rational its text denotes.
  A column carries its pandas dtype; a frame is the ordered list of its named columns.
  \<open>None\<close> of type \<open>frame option\<close> is Python's \<open>None\<close>, which \<open>read_csv\<close> of the
  cleaning script returns when the file cannot be read.
\<close>

datatype cell = Str string | Num rat | PosInf | NegInf | NaN

datatype dtype = Object | Float64 | Int64

record column =
  dtype :: dtype
  cells :: "cell list"

type_synonym frame = "(string \<times> column) list"

subsection \<open>Python's \<open>float(str)\<close>\<close>

text \<open>
  \<open>astype(float)\<close> on an object column converts each string with Python's \<open>float\<close>:
  surrounding whitespace is stripped, then an optional sign, then \<open>inf\<close>, \<open>infinity\<close>,
  \<open>nan\<close> (any case) or a decimal number with optional fraction and exponent, digits
  optionally grouped by single underscores. Anything else raises \<open>ValueError\<close>.
\<close>

definition is_space :: "char \<Rightarrow> bool" where
  "is_space c = (c = CHR '' '' \<or> (9::nat) \<le> of_char c \<and> (of_char c :: nat) \<le> 13)"

definition strip :: "string \<Rightarrow> string" where
  "strip s = rev (dropWhile is_space (rev (dropWhile is_space s)))"

definition digit_val :: "char \<Rightarrow> nat option" where
  "digit_val c = (if (48::nat) \<le> of_char c \<and> (of_char c :: nat) \<le> 57
                  then Some (of_char c - 48) else None)"

definition to_lower :: "char \<Rightarrow> char" where
  "to_lower c = (if (65::nat) \<le> of_char c \<and> (of_char c :: nat) \<le> 90
                 then char_of (of_char c + (32::nat)) else c)"

fun digitpart :: "string \<Rightarrow> nat list option" where
  "digitpart [] = None"
| "digitpart [c] = map_option (\<lambda>v. [v]) (digit_val c)"
| "digitpart (c # d # cs) =
     (case digit_val c of
        None \<Rightarrow> None
      | Some v \<Rightarrow>
          if d = CHR ''_'' then map_option (Cons v) (digitpart cs)
          else map_option (Cons v) (digitpart (d # cs)))"

definition nat_of_digits :: "nat list \<Rightarrow> nat" where
  "nat_of_digits ds = foldl (\<lambda>a d. 10 * a + d) 0 ds"

definition split_on :: "(char \<Rightarrow> bool) \<Rightarrow> string \<Rightarrow> string \<times> string option" where
  "split_on p s =
     (takeWhile (\<lambda>c. \<not> p c) s,
      case dropWhile (\<lambda>c. \<not> p c) s of [] \<Rightarrow> None | _ # r \<Rightarrow> Some r)"

definition parse_mantissa :: "string \<Rightarrow> (nat \<times> nat) option" where
  "parse_mantissa m =
     (case split_on (\<lambda>c. c = CHR ''.'') m of
        (a, None) \<Rightarrow> map_option (\<lambda>ds. (nat_of_digits ds, 0)) (digitpart a)
      | (a, Some b) \<Rightarrow>
          if a = [] then map_option (\<lambda>ds. (nat_of_digits ds, length ds)) (digitpart b)
          else (case digitpart a of
                  None \<Rightarrow> None
                | Some da \<Rightarrow>
                    if b = [] then Some (nat_of_digits da, 0)
                    else map_option (\<lambda>db. (nat_of_digits (da @ db), length db))
                           (digitpart b)))"

definition parse_exponent :: "string \<Rightarrow> int option" where
  "parse_exponent e =
     (case e of
        [] \<Rightarrow> None
      | c # r \<Rightarrow>
          if c = CHR ''-'' then map_option (\<lambda>ds. - int (nat_of_digits ds)) (digitpart r)
          else if c = CHR ''+'' then map_option (\<lambda>ds. int (nat_of_digits ds)) (digitpart r)
          else map_option (\<lambda>ds. int (nat_of_digits ds)) (digitpart e))"

definition scale10 :: "rat \<Rightarrow> int \<Rightarrow> rat" where
  "scale10 x e = (if 0 \<le> e then x * 10 ^ nat e else x / 10 ^ nat (- e))"

definition parse_floatnumber :: "string \<Rightarrow> rat option" where
  "parse_floatnumber s =
     (case split_on (\<lambda>c. c = CHR ''e'' \<or> c = CHR ''E'') s of
        (m, None) \<Rightarrow>
          map_option (\<lambda>(v, k). scale10 (of_nat v) (- int k)) (parse_mantissa m)
      | (m, Some e) \<Rightarrow>
          (case (parse_mantissa m, parse_exponent e) of
             (Some (v, k), Some x) \<Rightarrow> Some (scale10 (of_nat v) (x - int k))
           | _ \<Rightarrow> None))"

definition parse_abs :: "string \<Rightarrow> cell option" where
  "parse_abs s =
     (if map to_lower s = ''inf'' \<or> map to_lower s = ''infinity'' then Some PosInf
      else if map to_lower s = ''nan'' then Some NaN
      else map_option Num (parse_floatnumber s))"

fun negate :: "cell \<Rightarrow> cell" where
  "negate (Num r) = Num (- r)"
| "negate PosInf = NegInf"
| "negate NegInf = PosInf"
| "negate c = c"

definition py_float :: "string \<Rightarrow> cell option" where
  "py_float s =
     (case strip s of
        [] \<Rightarrow> None
      | c # r \<Rightarrow>
          if c = CHR ''-'' then map_option negate (parse_abs r)
          else if c = CHR ''+'' then parse_abs r
          else parse_abs (c # r))"

subsection \<open>The pandas operations the scripts call\<close>

text \<open>
  The semantics are those of pandas 2.x. \<open>data[c]\<close> raises \<open>KeyError\<close> for an absent
  column (and \<open>TypeError\<close> when \<open>data\<close> is \<open>None\<close>); \<open>data[c] = s\<close> replaces the column
  in place, keeping its position.
\<close>

definition columns :: "frame \<Rightarrow> string list" where
  "columns d = map fst d"

definition getitem :: "frame option \<Rightarrow> string \<Rightarrow> exc + column" where
  "getitem data c =
     (case data of
        None \<Rightarrow> Inl TypeError
      | Some d \<Rightarrow> (case map_of d c of None \<Rightarrow> Inl KeyError | Some s \<Rightarrow> Inr s))"

definition setitem :: "frame \<Rightarrow> string \<Rightarrow> column \<Rightarrow> frame" where
  "setitem d c s = AList.update c s d"

definition drop_column :: "string \<Rightarrow> frame \<Rightarrow> frame" where
  "drop_column c d = filter (\<lambda>(n, s). n \<noteq> c) d"

text \<open>
  \<open>Series.replace(old, new)\<close> replaces the cells equal to \<open>old\<close> and nothing else. (The
  opportunistic change of dtype that pandas 2 applies to an object column left
  without any string is not modelled; it changes no cell.)
\<close>

definition replace_value :: "cell \<Rightarrow> cell \<Rightarrow> column \<Rightarrow> column" where
  "replace_value old new s = s\<lparr>cells := map (\<lambda>x. if x = old then new else x) (cells s)\<rparr>"

fun to_float :: "cell \<Rightarrow> cell option" where
  "to_float (Str s) = py_float s"
| "to_float c = Some c"

definition astype_float :: "column \<Rightarrow> exc + column" where
  "astype_float s =
     (case those (map to_float (cells s)) of
        None \<Rightarrow> Inl ValueError
      | Some xs \<Rightarrow> Inr \<lparr>dtype = Float64, cells = xs\<rparr>)"

text \<open>
  \<open>Series.str\<close> raises \<open>AttributeError\<close> unless the column has object dtype and its
  non-missing values are not all numbers. \<open>str.replace(pat, repl, regex=True)\<close> applies
  \<open>re.sub\<close> to every string and yields missing for every other cell. With
  \<open>regex=True\<close> the pattern is compiled as a regular expression, also when it is a
  single character (pandas 2.0 and later): \<open>$\<close> is then the end-of-string anchor, which
  matches the empty string at the end of the text and before a final newline, and not
  the dollar character. An ordinary character matches itself.
\<close>

fun is_Str :: "cell \<Rightarrow> bool" where
  "is_Str (Str s) = True"
| "is_Str c = False"

fun is_number :: "cell \<Rightarrow> bool" where
  "is_number (Str s) = False"
| "is_number NaN = False"
| "is_number c = True"

definition can_use_str :: "column \<Rightarrow> bool" where
  "can_use_str s =
     (dtype s = Object \<and> (list_ex is_Str (cells s) \<or> \<not> list_ex is_number (cells s)))"

definition re_sub :: "string \<Rightarrow> string \<Rightarrow> string \<Rightarrow> string" where
  "re_sub pat repl s =
     (if pat = ''$'' then
        (if s \<noteq> [] \<and> last s = CHR 0x0A then butlast s @ repl @ [CHR 0x0A] @ repl
         else s @ repl)
      else concat (map (\<lambda>c. if [c] = pat then repl else [c]) s))"

fun str_replace_cell :: "string \<Rightarrow> string \<Rightarrow> cell \<Rightarrow> cell" where
  "str_replace_cell pat repl (Str s) = Str (re_sub pat repl s)"
| "str_replace_cell pat repl c = NaN"

definition str_replace :: "string \<Rightarrow> string \<Rightarrow> column \<Rightarrow> exc + column" where
  "str_replace pat repl s =
     (if can_use_str s then Inr (s\<lparr>cells := map (str_replace_cell pat repl) (cells s)\<rparr>)
      else Inl AttributeError)"

section \<open>Statements of a \<open>try\<close> block\<close>

text \<open>
  The functions of the cleaning script mutate \<open>data\<close> in place inside a \<open>try\<close> block
  and return it from the handler as well. A statement therefore maps the state (the
  frame and the log written so far) to the state it leaves and the exception it
  raised, if any; a block stops at the first exception and keeps the state reached.
\<close>

type_synonym state = "frame option \<times> log_entry list"

type_synonym stmt = "state \<Rightarrow> state \<times> exc option"

fun run_block :: "stmt list \<Rightarrow> stmt" where
  "run_block [] st = (st, None)"
| "run_block (c # cs) st =
     (case c st of
        (st', None) \<Rightarrow> run_block cs st'
      | (st', Some e) \<Rightarrow> (st', Some e))"

definition logging_info :: "string \<Rightarrow> stmt" where
  "logging_info msg = (\<lambda>(data, lg). ((data, lg @ [(INFO, msg)]), None))"

definition assign :: "string \<Rightarrow> (frame option \<Rightarrow> exc + column) \<Rightarrow> stmt" where
  "assign col expr =
     (\<lambda>(data, lg).
        case expr data of
          Inl e \<Rightarrow> ((data, lg), Some e)
        | Inr v \<Rightarrow>
            (case data of
               None \<Rightarrow> ((data, lg), Some TypeError)
             | Some d \<Rightarrow> ((Some (setitem d col v), lg), None)))"

definition try_return_data ::
  "stmt list \<Rightarrow> string \<Rightarrow> frame option \<Rightarrow> (exc + frame option) \<times> log_entry list" where
  "try_return_data body msg data =
     (case run_block body (data, []) of
        ((data', lg), None) \<Rightarrow> (Inr data', lg)
      | ((data', lg), Some e) \<Rightarrow>
          if is_Exception e then (Inr data', lg @ [(ERROR, msg)]) else (Inl e, lg))"

section \<open>\<open>data_cleaning.py\<close>\<close>

definition column_clean :: "string list" where
  "column_clean = [''price'', ''mileage'']"

definition drop_unnamed :: stmt where
  "drop_unnamed =
     (\<lambda>(data, lg).
        case data of
          None \<Rightarrow> ((data, lg), Some AttributeError)
        | Some d \<Rightarrow>
            if ''Unnamed: 0'' \<in> set (columns d)
            then ((Some (drop_column ''Unnamed: 0'' d),
                   lg @ [(INFO, ''Dropped Unnamed: 0 column.'')]), None)
            else ((data, lg), None))"

definition clean_column :: "string \<Rightarrow> stmt list" where
  "clean_column col =
     [assign col (\<lambda>data. map_exc (replace_value (Str ''na'') NaN) (getitem data col)),
      assign col (\<lambda>data. bind_exc (getitem data col) (str_replace '','' '''')),
      assign col (\<lambda>data. bind_exc (getitem data col) (str_replace ''$'' '''')),
      assign col (\<lambda>data. bind_exc (getitem data col) astype_float)]"

definition numerical_body :: "stmt list" where
  "numerical_body =
     [logging_info ''Starting numerical data cleaning process.'',
      drop_unnamed,
      assign ''date''
        (\<lambda>data. bind_exc (getitem data ''date'')
           (\<lambda>s. astype_float (replace_value (Str ''na'') NaN s)))]
     @ concat (map clean_column column_clean)
     @ [logging_info ''Numerical data cleaning completed successfully.'']"

definition data_cleaning_numerical ::
  "frame option \<Rightarrow> (exc + frame option) \<times> log_entry list" where
  "data_cleaning_numerical data =
     try_return_data numerical_body ''Error during numerical data cleaning'' data"

definition clean_categorical :: "string \<Rightarrow> stmt" where
  "clean_categorical column =
     (if column = ''transmission''
      then assign column
             (\<lambda>data. map_exc (replace_value (Str ''0'') (Str ''Other'')) (getitem data column))
      else assign column
             (\<lambda>data. map_exc (replace_value (Str ''na'') NaN) (getitem data column)))"

definition categorical_body :: "string list \<Rightarrow> stmt list" where
  "categorical_body categorical_features =
     [logging_info ''Starting categorical data cleaning process.'']
     @ map clean_categorical categorical_features
     @ [logging_info ''Categorical data cleaning completed successfully.'']"

definition data_clean_categorical ::
  "frame option \<Rightarrow> string list \<Rightarrow> (exc + frame option) \<times> log_entry list" where
  "data_clean_categorical data categorical_features =
     try_return_data (categorical_body categorical_features)
       ''Error during categorical data cleaning'' data"

text \<open>
  \<open>divide_columns\<close>: a feature is numerical when the dtype of its column is not
  object; the categorical features are the remaining ones, in column order. On an
  exception it returns two empty lists.
\<close>

fun numerical_of :: "frame option \<Rightarrow> string list \<Rightarrow> exc + string list" where
  "numerical_of data [] = Inr []"
| "numerical_of data (feature # rest) =
     bind_exc (getitem data feature)
       (\<lambda>s. map_exc (\<lambda>r. if dtype s \<noteq> Object then feature # r else r)
              (numerical_of data rest))"

definition divide_columns ::
  "frame option \<Rightarrow> (exc + string list \<times> string list) \<times> log_entry list" where
  "divide_columns data =
     (case (case data of
              None \<Rightarrow> Inl AttributeError
            | Some d \<Rightarrow>
                map_exc
                  (\<lambda>numerical_features.
                     (numerical_features,
                      filter (\<lambda>feature. feature \<notin> set numerical_features) (columns d)))
                  (numerical_of data (columns d))) of
        Inr r \<Rightarrow> (Inr r, [(INFO, ''Identified numerical and categorical features.'')])
      | Inl e \<Rightarrow>
          if is_Exception e then (Inr ([], []), [(ERROR, ''Error in dividing columns'')])
          else (Inl e, []))"




text \<open>
  The three cleaning calls of the script's main block (\<open>data_cleaning_numerical\<close>,
  \<open>divide_columns\<close>, \<open>data_clean_categorical\<close>), and the main block itself. A run ends
  with an exit status, the frame written to \<open>cleaned_data.csv\<close> and the log. An
  exception that leaves the script ends the run with status 1, \<open>SystemExit n\<close> with
  status \<open>n\<close>.
\<close>

definition data_cleaning :: "frame option \<Rightarrow> (exc + frame option) \<times> log_entry list" where
  "data_cleaning data0 =
     (case data_cleaning_numerical data0 of
        (Inl e, lg1) \<Rightarrow> (Inl e, lg1)
      | (Inr data, lg1) \<Rightarrow>
          (case divide_columns data of
             (Inl e, lg2) \<Rightarrow> (Inl e, lg1 @ lg2)
           | (Inr (numerical_features, categorical_features), lg2) \<Rightarrow>
               (case data_clean_categorical data categorical_features of
                  (r, lg3) \<Rightarrow> (r, lg1 @ lg2 @ lg3))))"

fun exit_status_of :: "exc \<Rightarrow> nat" where
  "exit_status_of (SystemExit n) = n"
| "exit_status_of e = 1"



section \<open>\<open>data_preparation.py\<close>\<close>

text \<open>
  Python floats are binary64. A float is kept as the exact rational it denotes;
  \<open>binary64 x\<close> is the float nearest to the rational \<open>x\<close> (53 significant bits, ties
  to even), which is what a float literal, the YAML loader and every float operation
  deliver. Overflow and subnormal numbers are not modelled: the values here are a
  fraction between 0 and 1 and its product with a number of rows.
\<close>

fun floor_log2_nat :: "nat \<Rightarrow> nat" where
  "floor_log2_nat n = (if n < 2 then 0 else Suc (floor_log2_nat (n div 2)))"

declare floor_log2_nat.simps [simp del]

definition floor_log2 :: "rat \<Rightarrow> int" where
  "floor_log2 x =
     (if 1 \<le> x then int (floor_log2_nat (nat \<lfloor>x\<rfloor>))
      else if nat \<lceil>1 / x\<rceil> \<le> 1 then 0
      else - int (Suc (floor_log2_nat (nat \<lceil>1 / x\<rceil> - 1))))"

definition pow2 :: "int \<Rightarrow> rat" where
  "pow2 e = (if 0 \<le> e then 2 ^ nat e else 1 / 2 ^ nat (- e))"

definition round_half_even :: "rat \<Rightarrow> int" where
  "round_half_even x =
     (if x - of_int \<lfloor>x\<rfloor> < 1 / 2 then \<lfloor>x\<rfloor>
      else if 1 / 2 < x - of_int \<lfloor>x\<rfloor> then \<lfloor>x\<rfloor> + 1
      else if even \<lfloor>x\<rfloor> then \<lfloor>x\<rfloor> else \<lfloor>x\<rfloor> + 1)"

definition binary64 :: "rat \<Rightarrow> rat" where
  "binary64 x =
     (if x = 0 then 0
      else sgn x * of_int (round_half_even (\<bar>x\<bar> / pow2 (floor_log2 \<bar>x\<bar> - 52)))
             * pow2 (floor_log2 \<bar>x\<bar> - 52))"

text \<open>
  The configuration resource is a YAML document, loaded by \<open>yaml.safe_load\<close> into
  Python values. \<open>obj.get(key, default)\<close> exists on a mapping only: on every other
  value (also on \<open>None\<close>, which an empty document loads to) it raises
  \<open>AttributeError\<close>.
\<close>

datatype yaml = YNull | YBool bool | YInt int | YFloat rat | YStr string
  | YSeq "yaml list" | YMap "(string \<times> yaml) list"

datatype config_file = ConfigMissing | ConfigUnreadable | ConfigUnparseable
  | ConfigDocument yaml

definition dict_get :: "yaml \<Rightarrow> string \<Rightarrow> yaml \<Rightarrow> exc + yaml" where
  "dict_get obj key dflt =
     (case obj of
        YMap m \<Rightarrow> Inr (case map_of m key of None \<Rightarrow> dflt | Some v \<Rightarrow> v)
      | _ \<Rightarrow> Inl AttributeError)"

definition read_params :: "config_file \<Rightarrow> (exc + yaml \<times> yaml) \<times> log_entry list" where
  "read_params file_path =
     (case (case file_path of
              ConfigMissing \<Rightarrow>
                (Inl (SystemExit 1),
                 [(INFO, ''Reading parameters''), (ERROR, ''Parameters file not found'')])
            | ConfigUnreadable \<Rightarrow> (Inl OSError, [(INFO, ''Reading parameters'')])
            | ConfigUnparseable \<Rightarrow> (Inl YAMLError, [(INFO, ''Reading parameters'')])
            | ConfigDocument params_file \<Rightarrow>
                (bind_exc (dict_get params_file ''Data_Preparation'' (YMap []))
                   (\<lambda>parameters.
                      bind_exc (dict_get parameters ''test_size'' (YFloat (binary64 (1 / 5))))
                        (\<lambda>test_size.
                           bind_exc (dict_get parameters ''random_state'' (YInt 42))
                             (\<lambda>random_state. Inr (test_size, random_state)))),
                 [(INFO, ''Reading parameters'')])) of
        (Inr r, lg) \<Rightarrow> (Inr r, lg @ [(INFO, ''Parameters loaded'')])
      | (Inl e, lg) \<Rightarrow>
          if e = YAMLError then (Inl (SystemExit 1), lg @ [(ERROR, ''Error reading YAML file'')])
          else if is_Exception e
          then (Inl (SystemExit 1), lg @ [(ERROR, ''Unexpected error reading params'')])
          else (Inl e, lg))"

text \<open>
  The split stage selects whole rows and never looks inside them, so here a dataset
  is the list of its rows, each with the index label pandas keeps for it; \<open>load_data\<close>
  labels the rows \<open>0, 1, \<dots>\<close> as \<open>read_csv\<close> does.
\<close>

type_synonym 'r table = "(nat \<times> 'r) list"

definition with_index :: "'r list \<Rightarrow> 'r table" where
  "with_index rows = zip [0..<length rows] rows"

definition load_data :: "'r list option \<Rightarrow> 'r table option \<times> log_entry list" where
  "load_data file =
     (case file of
        None \<Rightarrow> (None, [(INFO, ''Attempting to load data''), (ERROR, ''File not found'')])
      | Some rows \<Rightarrow>
          (Some (with_index rows),
           [(INFO, ''Attempting to load data''), (INFO, ''Data successfully loaded'')]))"

text \<open>
  \<open>train_test_split\<close> of scikit-learn, as called here (one array, \<open>train_size\<close> not
  given, \<open>shuffle=True\<close>, no stratification). For a float \<open>test_size\<close> strictly
  between 0 and 1 the test set gets \<open>ceil(test_size * n_samples)\<close> rows, the product
  being a float product, and the train set the remaining ones; an integer
  \<open>test_size\<close> is a number of rows; \<open>None\<close> means 0.25; an empty train set raises
  \<open>ValueError\<close>. An integer \<open>random_state\<close> in \<open>[0, 2^32)\<close> seeds a fresh generator (a
  bool is the integer 1 or 0), \<open>None\<close> uses numpy's global generator. The generators
  themselves are parameters: \<open>seeded s n\<close> is the permutation of \<open>0..<n\<close> that a
  generator seeded with \<open>s\<close> draws first, and \<open>global_rng n\<close> the one the global
  generator would draw in its present hidden state.
  The first \<open>n_test\<close> positions of the permutation are the test rows, the next
  \<open>n_train\<close> the train rows.
\<close>

definition validate_shuffle_split :: "nat \<Rightarrow> yaml \<Rightarrow> exc + nat \<times> nat" where
  "validate_shuffle_split n_samples test_size =
     bind_exc
       (case test_size of
          YFloat f \<Rightarrow>
            if f \<le> 0 \<or> f \<ge> 1 then Inl ValueError
            else Inr (nat \<lceil>binary64 (f * of_nat n_samples)\<rceil>)
        | YInt k \<Rightarrow> if k \<ge> int n_samples \<or> k \<le> 0 then Inl ValueError else Inr (nat k)
        | YNull \<Rightarrow> Inr (nat \<lceil>binary64 ((1 / 4) * of_nat n_samples)\<rceil>)
        | _ \<Rightarrow> Inl ValueError)
       (\<lambda>n_test.
          if n_samples - n_test = 0 then Inl ValueError
          else Inr (n_samples - n_test, n_test))"

definition check_random_state ::
  "(int \<Rightarrow> nat \<Rightarrow> nat list) \<Rightarrow> (nat \<Rightarrow> nat list) \<Rightarrow> yaml \<Rightarrow> exc + (nat \<Rightarrow> nat list)" where
  "check_random_state seeded global_rng random_state =
     (case random_state of
        YNull \<Rightarrow> Inr global_rng
      | YInt s \<Rightarrow> if 0 \<le> s \<and> s < 2 ^ 32 then Inr (seeded s) else Inl ValueError
      | YBool b \<Rightarrow> Inr (seeded (if b then 1 else 0))
      | _ \<Rightarrow> Inl ValueError)"

definition iloc :: "'r table \<Rightarrow> nat list \<Rightarrow> exc + 'r table" where
  "iloc data ind =
     (if list_all (\<lambda>i. i < length data) ind then Inr (map (\<lambda>i. data ! i) ind)
      else Inl ValueError)"

definition train_test_split ::
  "(int \<Rightarrow> nat \<Rightarrow> nat list) \<Rightarrow> (nat \<Rightarrow> nat list) \<Rightarrow> 'r table \<Rightarrow> yaml \<Rightarrow> yaml
     \<Rightarrow> exc + 'r table \<times> 'r table" where
  "train_test_split seeded global_rng data test_size random_state =
     bind_exc (validate_shuffle_split (length data) test_size)
       (\<lambda>(n_train, n_test).
          bind_exc (check_random_state seeded global_rng random_state)
            (\<lambda>rng.
               bind_exc (iloc data (take n_train (drop n_test (rng (length data)))))
                 (\<lambda>train. bind_exc (iloc data (take n_test (rng (length data))))
                    (\<lambda>test. Inr (train, test)))))"

definition split_data ::
  "(int \<Rightarrow> nat \<Rightarrow> nat list) \<Rightarrow> (nat \<Rightarrow> nat list) \<Rightarrow> 'r table \<Rightarrow> yaml \<Rightarrow> yaml
     \<Rightarrow> (exc + 'r table \<times> 'r table) \<times> log_entry list" where
  "split_data seeded global_rng data test_size random_state =
     (case train_test_split seeded global_rng data test_size random_state of
        Inr r \<Rightarrow> (Inr r, [(INFO, ''Splitting data''), (INFO, ''Data successfully split'')])
      | Inl e \<Rightarrow>
          if is_Exception e
          then (Inl (SystemExit 1), [(INFO, ''Splitting data''), (ERROR, ''Error splitting data'')])
          else (Inl e, [(INFO, ''Splitting data'')]))"

definition save_split_file :: "bool \<Rightarrow> 'r table \<Rightarrow> (exc + 'r list) \<times> log_entry list" where
  "save_split_file writable data =
     (if writable then (Inr (map snd data), [(INFO, ''Successfully saved data'')])
      else (Inl (SystemExit 1), [(ERROR, ''Error saving file'')]))"

text \<open>
  The main block of the split run: its exit status and the rows written to
  \<open>train.csv\<close> and \<open>test.csv\<close> (\<open>to_csv(index=False)\<close> writes no labels).
\<close>

definition main_preparation ::
  "(int \<Rightarrow> nat \<Rightarrow> nat list) \<Rightarrow> (nat \<Rightarrow> nat list) \<Rightarrow> 'r list option \<Rightarrow> config_file \<Rightarrow> bool
     \<Rightarrow> nat \<times> ('r list \<times> 'r list) option" where
  "main_preparation seeded global_rng file params writable =
     (case (case fst (load_data file) of
              None \<Rightarrow> Inl (SystemExit 1)
            | Some data \<Rightarrow>
                bind_exc (fst (read_params params))
                  (\<lambda>(test_size, random_state).
                     bind_exc (fst (split_data seeded global_rng data test_size random_state))
                       (\<lambda>(train_data, test_data).
                          bind_exc (fst (save_split_file writable train_data))
                            (\<lambda>train. bind_exc (fst (save_split_file writable test_data))
                               (\<lambda>test. Inr (train, test)))))) of
        Inr w \<Rightarrow> (0, Some w)
      | Inl e \<Rightarrow> (if is_Exception e then 1 else exit_status_of e, None))"

section \<open>Blocks and assignments\<close>

lemma run_block_fst_induct:
  assumes "\<And>c st. c \<in> set cs \<Longrightarrow> P st \<Longrightarrow> P (fst (c st))" and "P st"
  shows "P (fst (run_block cs st))"
  using assms
proof (induction cs arbitrary: st)
  case Nil
  then show ?case by simp
next
  case (Cons c cs)
  obtain st' r where c: "c st = (st', r)" by (cases "c st")
  have "P st'" using Cons.prems(1)[of c st] Cons.prems(2) c by simp
  show ?case
  proof (cases r)
    case None
    then show ?thesis using Cons.IH[of st'] Cons.prems(1) \<open>P st'\<close> c by simp
  next
    case (Some e)
    then show ?thesis using \<open>P st'\<close> c by simp
  qed
qed

lemma run_block_exc:
  "\<forall>c\<in>set cs. \<forall>st e. snd (c st) = Some e \<longrightarrow> Q e \<Longrightarrow>
   snd (run_block cs st) = Some e \<Longrightarrow> Q e"
proof (induction cs arbitrary: st)
  case Nil
  then show ?case by simp
next
  case (Cons c cs)
  obtain st' r where c: "c st = (st', r)" by (cases "c st")
  show ?case
  proof (cases r)
    case None
    then show ?thesis using Cons.IH[of st'] Cons.prems c by simp
  next
    case (Some e')
    have "snd (c st) = Some e' \<Longrightarrow> Q e'"
      using Cons.prems(1) by (metis list.set_intros(1))
    then show ?thesis using Some Cons.prems(2) c by simp
  qed
qed

lemma assign_Some:
  "assign col expr (Some d, lg) =
     (case expr (Some d) of Inl e \<Rightarrow> ((Some d, lg), Some e)
      | Inr v \<Rightarrow> ((Some (setitem d col v), lg), None))"
  by (simp add: assign_def split: sum.splits)

lemma map_exc_bind: "map_exc f x = bind_exc x (\<lambda>v. Inr (f v))"
  by (simp add: map_exc_def bind_exc_def)

lemma columns_setitem_present:
  "map_of d c = Some s \<Longrightarrow> columns (setitem d c v) = columns d"
  by (auto simp: columns_def setitem_def update_keys image_iff dest!: map_of_SomeD
      intro: bexI[of _ "(c, s)"])

lemma run_block_append:
  "run_block (xs @ ys) st =
     (case run_block xs st of
        (st', None) \<Rightarrow> run_block ys st'
      | (st', Some e) \<Rightarrow> (st', Some e))"
  by (induction xs arbitrary: st) (auto split: prod.splits option.splits)

section \<open>Failure policy of the cleaning run\<close>

lemma astype_float_exc: "astype_float s = Inl e \<Longrightarrow> is_Exception e"
  by (auto simp: astype_float_def split: option.splits)

lemma str_replace_exc: "str_replace pat repl s = Inl e \<Longrightarrow> is_Exception e"
  by (auto simp: str_replace_def split: if_splits)

lemma getitem_exc: "getitem data c = Inl e \<Longrightarrow> is_Exception e"
  by (auto simp: getitem_def split: option.splits)

lemma assign_exc:
  assumes "\<And>data e. expr data = Inl e \<Longrightarrow> is_Exception e"
    and "snd (assign col expr st) = Some e"
  shows "is_Exception e"
proof -
  obtain data lg where st: "st = (data, lg)" by (cases st)
  show ?thesis
  proof (cases "expr data")
    case (Inl e')
    then show ?thesis using assms st by (auto simp: assign_def)
  next
    case (Inr v)
    then show ?thesis using assms(2) st by (cases data) (auto simp: assign_def)
  qed
qed

lemma bind_exc_Inl:
  "bind_exc x f = Inl e \<Longrightarrow> x = Inl e \<or> (\<exists>v. x = Inr v \<and> f v = Inl e)"
  by (cases x) (auto simp: bind_exc_def)

lemma logging_info_exc: "snd (logging_info msg st) = Some e \<Longrightarrow> is_Exception e"
  by (cases st) (simp add: logging_info_def)

lemma drop_unnamed_exc: "snd (drop_unnamed st) = Some e \<Longrightarrow> is_Exception e"
  by (cases st) (auto simp: drop_unnamed_def split: option.splits if_splits)

lemma clean_column_exc:
  "c \<in> set (clean_column col) \<Longrightarrow> snd (c st) = Some e \<Longrightarrow> is_Exception e"
  unfolding clean_column_def map_exc_bind
  by (auto elim!: assign_exc[rotated] dest!: bind_exc_Inl
      dest: getitem_exc astype_float_exc str_replace_exc)

lemma numerical_body_exc:
  "c \<in> set numerical_body \<Longrightarrow> snd (c st) = Some e \<Longrightarrow> is_Exception e"
  unfolding numerical_body_def
  by (auto dest: logging_info_exc drop_unnamed_exc clean_column_exc
      elim!: assign_exc[rotated] dest!: bind_exc_Inl
      dest: getitem_exc astype_float_exc)

lemma clean_categorical_exc:
  "snd (clean_categorical column st) = Some e \<Longrightarrow> is_Exception e"
  unfolding clean_categorical_def map_exc_bind
  by (auto split: if_splits elim!: assign_exc[rotated] dest!: bind_exc_Inl dest: getitem_exc)

lemma categorical_body_exc:
  "c \<in> set (categorical_body fs) \<Longrightarrow> snd (c st) = Some e \<Longrightarrow> is_Exception e"
  unfolding categorical_body_def
  by (auto dest: logging_info_exc clean_categorical_exc)

lemma try_return_data_caught:
  assumes "\<And>c st e. c \<in> set body \<Longrightarrow> snd (c st) = Some e \<Longrightarrow> is_Exception e"
  shows "try_return_data body msg data =
     (Inr (fst (fst (run_block body (data, [])))),
      snd (fst (run_block body (data, []))) @
        (if snd (run_block body (data, [])) = None then [] else [(ERROR, msg)]))"
proof -
  obtain data' lg r where r: "run_block body (data, []) = ((data', lg), r)"
    by (metis surj_pair)
  show ?thesis
  proof (cases r)
    case None
    then show ?thesis using r by (simp add: try_return_data_def)
  next
    case (Some e)
    have "is_Exception e"
      by (rule run_block_exc[of body is_Exception "(data, [])"]) (use assms r Some in auto)
    then show ?thesis using r Some by (simp add: try_return_data_def)
  qed
qed

lemma numerical_of_columns:
  "set fs \<subseteq> set (columns d) \<Longrightarrow> \<exists>r. numerical_of (Some d) fs = Inr r"
proof (induction fs)
  case Nil
  then show ?case by simp
next
  case (Cons f fs)
  then obtain r where "numerical_of (Some d) fs = Inr r" by auto
  moreover have "map_of d f \<noteq> None"
    using Cons.prems by (simp add: columns_def map_of_eq_None_iff)
  then obtain s where "map_of d f = Some s" by auto
  ultimately show ?case by (simp add: getitem_def bind_exc_def map_exc_def)
qed


lemma data_cleaning_numerical_caught:
  "data_cleaning_numerical data =
     (Inr (fst (fst (run_block numerical_body (data, [])))),
      snd (fst (run_block numerical_body (data, []))) @
        (if snd (run_block numerical_body (data, [])) = None then []
         else [(ERROR, ''Error during numerical data cleaning'')]))"
  unfolding data_cleaning_numerical_def
  by (rule try_return_data_caught) (rule numerical_body_exc)

lemma data_clean_categorical_caught:
  "data_clean_categorical data fs =
     (Inr (fst (fst (run_block (categorical_body fs) (data, [])))),
      snd (fst (run_block (categorical_body fs) (data, []))) @
        (if snd (run_block (categorical_body fs) (data, [])) = None then []
         else [(ERROR, ''Error during categorical data cleaning'')]))"
  unfolding data_clean_categorical_def
  by (rule try_return_data_caught) (rule categorical_body_exc)






section \<open>The numeric normalizer on a frame\<close>

lemma map_of_setitem: "map_of (setitem d c v) k = (if k = c then Some v else map_of d k)"
  by (simp add: setitem_def update_conv')

lemma assign_getitem_Some:
  "assign col (\<lambda>data. bind_exc (getitem data col) f) (Some d, lg) =
     (case map_of d col of
        None \<Rightarrow> ((Some d, lg), Some KeyError)
      | Some s \<Rightarrow> (case f s of Inl e \<Rightarrow> ((Some d, lg), Some e)
                   | Inr v \<Rightarrow> ((Some (setitem d col v), lg), None)))"
  by (simp add: assign_Some getitem_def bind_exc_def split: option.splits sum.splits)

text \<open>
  \<open>keeps S d st\<close>: the state holds a frame with the columns of \<open>d\<close>, in the same
  order, and agrees with \<open>d\<close> on every column outside \<open>S\<close>.
\<close>

definition keeps :: "string set \<Rightarrow> frame \<Rightarrow> state \<Rightarrow> bool" where
  "keeps S d st = (\<exists>d' lg. st = (Some d', lg) \<and> columns d' = columns d
                     \<and> (\<forall>k. k \<notin> S \<longrightarrow> map_of d' k = map_of d k))"

lemma keeps_assign:
  assumes "col \<in> S" "keeps S d st"
  shows "keeps S d (fst (assign col (\<lambda>data. bind_exc (getitem data col) f) st))"
proof -
  obtain d' lg where st: "st = (Some d', lg)" "columns d' = columns d"
    "\<forall>k. k \<notin> S \<longrightarrow> map_of d' k = map_of d k"
    using assms(2) by (auto simp: keeps_def)
  show ?thesis
  proof (cases "map_of d' col")
    case None
    then show ?thesis using st by (simp add: assign_getitem_Some keeps_def)
  next
    case (Some s)
    then show ?thesis
      using st assms(1)
      by (cases "f s") (auto simp: assign_getitem_Some keeps_def columns_setitem_present map_of_setitem)
  qed
qed

lemma keeps_logging_info: "keeps S d st \<Longrightarrow> keeps S d (fst (logging_info msg st))"
  by (auto simp: keeps_def logging_info_def)

lemma keeps_clean_column:
  "col \<in> S \<Longrightarrow> c \<in> set (clean_column col) \<Longrightarrow> keeps S d st \<Longrightarrow> keeps S d (fst (c st))"
  unfolding clean_column_def map_exc_bind by (auto intro: keeps_assign)

text \<open>The statements of the numeric normalizer after the index column is dropped.\<close>

definition numerical_rest :: "stmt list" where
  "numerical_rest =
     [assign ''date''
        (\<lambda>data. bind_exc (getitem data ''date'')
           (\<lambda>s. astype_float (replace_value (Str ''na'') NaN s)))]
     @ concat (map clean_column column_clean)
     @ [logging_info ''Numerical data cleaning completed successfully.'']"

lemma numerical_body_split:
  "numerical_body = [logging_info ''Starting numerical data cleaning process.'', drop_unnamed]
     @ numerical_rest"
  by (simp add: numerical_body_def numerical_rest_def)

lemma keeps_numerical_rest:
  "c \<in> set numerical_rest \<Longrightarrow> keeps {''date'', ''price'', ''mileage''} d st \<Longrightarrow>
   keeps {''date'', ''price'', ''mileage''} d (fst (c st))"
  unfolding numerical_rest_def column_clean_def
  by (auto intro: keeps_assign keeps_logging_info keeps_clean_column)

lemma keeps_run_numerical_rest:
  "keeps {''date'', ''price'', ''mileage''} d (fst (run_block numerical_rest (Some d, lg)))"
proof (rule run_block_fst_induct)
  show "keeps {''date'', ''price'', ''mileage''} d (Some d, lg)" by (simp add: keeps_def)
qed (rule keeps_numerical_rest)

lemma run_numerical_body_Some:
  "run_block numerical_body (Some d, []) =
     run_block numerical_rest
       (if ''Unnamed: 0'' \<in> set (columns d)
        then (Some (drop_column ''Unnamed: 0'' d),
              [(INFO, ''Starting numerical data cleaning process.''),
               (INFO, ''Dropped Unnamed: 0 column.'')])
        else (Some d, [(INFO, ''Starting numerical data cleaning process.'')]))"
  by (simp add: numerical_body_split logging_info_def drop_unnamed_def)

lemma columns_drop_column: "columns (drop_column c d) = filter (\<lambda>n. n \<noteq> c) (columns d)"
  by (induction d) (auto simp: columns_def drop_column_def)

lemma map_of_drop_column: "k \<noteq> c \<Longrightarrow> map_of (drop_column c d) k = map_of d k"
  by (induction d) (auto simp: drop_column_def)

lemma drop_column_absent: "c \<notin> set (columns d) \<Longrightarrow> drop_column c d = d"
  by (induction d) (auto simp: drop_column_def columns_def)


text \<open>A statement is \<open>log_free\<close> when the frame it leaves and the exception it raises do
  not depend on the log.\<close>

definition log_free :: "stmt \<Rightarrow> bool" where
  "log_free c = (\<forall>data lg lg'. fst (fst (c (data, lg))) = fst (fst (c (data, lg')))
                   \<and> snd (c (data, lg)) = snd (c (data, lg')))"

lemma log_free_run_block:
  "\<forall>c\<in>set cs. log_free c \<Longrightarrow>
   fst (fst (run_block cs (data, lg))) = fst (fst (run_block cs (data, lg')))
   \<and> snd (run_block cs (data, lg)) = snd (run_block cs (data, lg'))"
proof (induction cs arbitrary: data lg lg')
  case Nil
  then show ?case by simp
next
  case (Cons c cs)
  obtain d1 l1 r1 where 1: "c (data, lg) = ((d1, l1), r1)" by (metis surj_pair)
  obtain d2 l2 r2 where 2: "c (data, lg') = ((d2, l2), r2)" by (metis surj_pair)
  have "log_free c" using Cons.prems by simp
  then have eq: "d1 = d2" "r1 = r2"
    using 1 2 unfolding log_free_def by (metis fst_conv snd_conv)+
  show ?case
  proof (cases r1)
    case None
    then show ?thesis using 1 2 eq Cons.IH[of d2 l1 l2] Cons.prems by simp
  next
    case (Some e)
    then show ?thesis using 1 2 eq by simp
  qed
qed

lemma log_free_logging_info: "log_free (logging_info msg)"
  by (simp add: log_free_def logging_info_def)

lemma log_free_assign: "log_free (assign col expr)"
  by (auto simp: log_free_def assign_def split: sum.splits option.splits)

lemma log_free_numerical_rest: "\<forall>c\<in>set numerical_rest. log_free c"
  by (auto simp: numerical_rest_def column_clean_def clean_column_def
      log_free_logging_info log_free_assign)

lemma numerical_rest_log:
  "fst (fst (run_block numerical_rest (data, lg))) = fst (fst (run_block numerical_rest (data, lg')))"
  using log_free_run_block[OF log_free_numerical_rest] by blast

lemma numerical_drop_first:
  "fst (data_cleaning_numerical (Some d)) =
   fst (data_cleaning_numerical (Some (drop_column ''Unnamed: 0'' d)))"
proof (cases "''Unnamed: 0'' \<in> set (columns d)")
  case True
  let ?d1 = "drop_column ''Unnamed: 0'' d"
  have absent: "''Unnamed: 0'' \<notin> set (columns ?d1)"
    by (simp add: columns_drop_column)
  have l: "run_block numerical_body (Some d, []) =
      run_block numerical_rest (Some ?d1,
        [(INFO, ''Starting numerical data cleaning process.''),
         (INFO, ''Dropped Unnamed: 0 column.'')])"
    using True by (simp only: run_numerical_body_Some if_True)
  have r: "run_block numerical_body (Some ?d1, []) =
      run_block numerical_rest (Some ?d1, [(INFO, ''Starting numerical data cleaning process.'')])"
    using absent by (simp only: run_numerical_body_Some if_False)
  have "fst (fst (run_block numerical_body (Some d, []))) =
        fst (fst (run_block numerical_body (Some ?d1, [])))"
    unfolding l r by (rule numerical_rest_log)
  then show ?thesis by (simp only: data_cleaning_numerical_caught fst_conv)
next
  case False
  then have "drop_column ''Unnamed: 0'' d = d" by (rule drop_column_absent)
  then show ?thesis by simp
qed

lemma numerical_frame:
  "\<exists>d'. fst (data_cleaning_numerical (Some d)) = Inr (Some d')
     \<and> columns d' = filter (\<lambda>n. n \<noteq> ''Unnamed: 0'') (columns d)
     \<and> (\<forall>k. k \<notin> {''Unnamed: 0'', ''date'', ''price'', ''mileage''} \<longrightarrow> map_of d' k = map_of d k)"
proof -
  let ?d1 = "drop_column ''Unnamed: 0'' d"
  let ?S = "{''date'', ''price'', ''mileage''}"
  have "keeps ?S ?d1 (fst (run_block numerical_body (Some ?d1, [])))"
    unfolding run_numerical_body_Some
    by (simp only: columns_drop_column set_filter mem_Collect_eq simp_thms if_False
        keeps_run_numerical_rest)
  then obtain d' lg where d': "fst (run_block numerical_body (Some ?d1, [])) = (Some d', lg)"
    "columns d' = columns ?d1" "\<forall>k. k \<notin> ?S \<longrightarrow> map_of d' k = map_of ?d1 k"
    unfolding keeps_def by blast
  have "fst (data_cleaning_numerical (Some d)) = fst (data_cleaning_numerical (Some ?d1))"
    by (rule numerical_drop_first)
  also have "\<dots> = Inr (Some d')"
    using d'(1) by (simp add: data_cleaning_numerical_caught)
  finally have "fst (data_cleaning_numerical (Some d)) = Inr (Some d')" .
  moreover have "columns d' = filter (\<lambda>n. n \<noteq> ''Unnamed: 0'') (columns d)"
    using d'(2) by (simp only: columns_drop_column)
  moreover have "\<forall>k. k \<notin> {''Unnamed: 0'', ''date'', ''price'', ''mileage''} \<longrightarrow> map_of d' k = map_of d k"
    using d'(3) map_of_drop_column[of _ "''Unnamed: 0''" d] by auto
  ultimately show ?thesis by blast
qed

text \<open>
  Claim C8. On every frame the numeric normalizer returns a frame whose columns are
  those of the input without \<open>Unnamed: 0\<close>, in the same order; every column other than
  \<open>Unnamed: 0\<close> and the three normalized ones (\<open>date\<close>, \<open>price\<close>, \<open>mileage\<close>) is
  returned as it was; without an \<open>Unnamed: 0\<close> column no column is dropped; and
  the result is the one the normalizer gives on the frame with \<open>Unnamed: 0\<close> already
  removed, so the removal affects no other column.
\<close>

theorem index_column_removed:
  "\<exists>d'. fst (data_cleaning_numerical (Some d)) = Inr (Some d')
     \<and> columns d' = filter (\<lambda>n. n \<noteq> ''Unnamed: 0'') (columns d)
     \<and> (\<forall>k. k \<notin> {''Unnamed: 0'', ''date'', ''price'', ''mileage''} \<longrightarrow> map_of d' k = map_of d k)
     \<and> (''Unnamed: 0'' \<notin> set (columns d) \<longrightarrow> columns d' = columns d)
     \<and> fst (data_cleaning_numerical (Some d)) =
         fst (data_cleaning_numerical (Some (drop_column ''Unnamed: 0'' d)))"
proof -
  obtain d' where d': "fst (data_cleaning_numerical (Some d)) = Inr (Some d')"
    "columns d' = filter (\<lambda>n. n \<noteq> ''Unnamed: 0'') (columns d)"
    "\<forall>k. k \<notin> {''Unnamed: 0'', ''date'', ''price'', ''mileage''} \<longrightarrow> map_of d' k = map_of d k"
    using numerical_frame[of d] by blast
  have "''Unnamed: 0'' \<notin> set (columns d) \<longrightarrow> columns d' = columns d"
    using d'(2) by (auto simp: filter_id_conv)
  then show ?thesis
    using d' numerical_drop_first[of d] by (intro exI[of _ d'] conjI)
qed

theorem index_column_removed_witness:
  "\<exists>d'. fst (data_cleaning_numerical
             (Some [(''Unnamed: 0'', \<lparr>dtype = Int64, cells = [Num 0]\<rparr>),
                    (''transmission'', \<lparr>dtype = Object, cells = [Str ''na'']\<rparr>)])) = Inr (Some d')
     \<and> columns d' = [''transmission'']
     \<and> map_of d' ''transmission'' = Some \<lparr>dtype = Object, cells = [Str ''na'']\<rparr>"
proof -
  let ?d = "[(''Unnamed: 0'', \<lparr>dtype = Int64, cells = [Num 0]\<rparr>),
             (''transmission'', \<lparr>dtype = Object, cells = [Str ''na'']\<rparr>)]"
  obtain d' where 1: "fst (data_cleaning_numerical (Some ?d)) = Inr (Some d')"
    and 2: "columns d' = filter (\<lambda>n. n \<noteq> ''Unnamed: 0'') (columns ?d)"
    and 3: "\<forall>k. k \<notin> {''Unnamed: 0'', ''date'', ''price'', ''mileage''} \<longrightarrow> map_of d' k = map_of ?d k"
    using index_column_removed[of ?d] by blast
  have "columns d' = [''transmission'']" using 2 by (simp add: columns_def)
  moreover have "map_of d' ''transmission'' = Some \<lparr>dtype = Object, cells = [Str ''na'']\<rparr>"
    using 3[rule_format, of "''transmission''"] by simp
  ultimately show ?thesis using 1 by blast
qed

section \<open>The categorical normalizer on a frame\<close>

text \<open>What \<open>clean_categorical\<close> writes into column \<open>k\<close>.\<close>

definition cat_transform :: "string \<Rightarrow> column \<Rightarrow> column" where
  "cat_transform k s =
     (if k = ''transmission'' then replace_value (Str ''0'') (Str ''Other'') s
      else replace_value (Str ''na'') NaN s)"

lemma clean_categorical_Some:
  "clean_categorical k (Some d, lg) =
     (case map_of d k of
        None \<Rightarrow> ((Some d, lg), Some KeyError)
      | Some s \<Rightarrow> ((Some (setitem d k (cat_transform k s)), lg), None))"
  by (simp add: clean_categorical_def cat_transform_def map_exc_bind assign_getitem_Some
      split: option.splits)

lemma replace_value_idem:
  "new \<noteq> old \<Longrightarrow> replace_value old new (replace_value old new s) = replace_value old new s"
  by (simp add: replace_value_def)

lemma cat_transform_idem: "cat_transform k (cat_transform k s) = cat_transform k s"
  by (simp add: cat_transform_def replace_value_idem)

lemma run_categoricals_any:
  "\<exists>d' r. run_block (map clean_categorical fs) (Some d, lg) = ((Some d', lg), r)
     \<and> columns d' = columns d
     \<and> (\<forall>k. map_of d' k = map_of d k \<or> map_of d' k = map_option (cat_transform k) (map_of d k))"
proof (induction fs arbitrary: d)
  case Nil
  then show ?case by simp
next
  case (Cons f fs)
  show ?case
  proof (cases "map_of d f")
    case None
    then show ?thesis by (simp add: clean_categorical_Some)
  next
    case (Some s)
    let ?d1 = "setitem d f (cat_transform f s)"
    obtain d' r where d': "run_block (map clean_categorical fs) (Some ?d1, lg) = ((Some d', lg), r)"
      "columns d' = columns ?d1"
      "\<forall>k. map_of d' k = map_of ?d1 k \<or> map_of d' k = map_option (cat_transform k) (map_of ?d1 k)"
      using Cons.IH[of ?d1] by blast
    have run: "run_block (map clean_categorical (f # fs)) (Some d, lg) = ((Some d', lg), r)"
      using Some d'(1) by (simp add: clean_categorical_Some)
    have cols: "columns d' = columns d"
      using d'(2) Some by (simp add: columns_setitem_present)
    have "map_of d' k = map_of d k \<or> map_of d' k = map_option (cat_transform k) (map_of d k)" for k
      using d'(3)[rule_format, of k] Some
      by (cases "k = f") (auto simp: map_of_setitem cat_transform_idem)
    then show ?thesis using run cols by blast
  qed
qed

lemma run_categoricals_present:
  "set fs \<subseteq> set (columns d) \<Longrightarrow>
   \<exists>d'. run_block (map clean_categorical fs) (Some d, lg) = ((Some d', lg), None)
     \<and> columns d' = columns d
     \<and> (\<forall>k. map_of d' k = (if k \<in> set fs then map_option (cat_transform k) (map_of d k)
                             else map_of d k))"
proof (induction fs arbitrary: d)
  case Nil
  then show ?case by simp
next
  case (Cons f fs)
  have "map_of d f \<noteq> None"
    using Cons.prems by (simp add: columns_def map_of_eq_None_iff)
  then obtain s where Some: "map_of d f = Some s" by auto
  let ?d1 = "setitem d f (cat_transform f s)"
  have c1: "columns ?d1 = columns d" using Some by (simp add: columns_setitem_present)
  then have "set fs \<subseteq> set (columns ?d1)" using Cons.prems by simp
  then obtain d' where d': "run_block (map clean_categorical fs) (Some ?d1, lg) = ((Some d', lg), None)"
    "columns d' = columns ?d1"
    "\<forall>k. map_of d' k = (if k \<in> set fs then map_option (cat_transform k) (map_of ?d1 k)
                          else map_of ?d1 k)"
    using Cons.IH[of ?d1] by blast
  have run: "run_block (map clean_categorical (f # fs)) (Some d, lg) = ((Some d', lg), None)"
    using Some d'(1) by (simp add: clean_categorical_Some)
  have "map_of d' k = (if k \<in> set (f # fs) then map_option (cat_transform k) (map_of d k)
                       else map_of d k)" for k
    using d'(3)[rule_format, of k] Some
    by (cases "k = f") (auto simp: map_of_setitem cat_transform_idem)
  then show ?case using run d'(2) c1 by auto
qed

lemma run_categorical_body:
  "run_block (categorical_body fs) (Some d, []) =
     (case run_block (map clean_categorical fs)
             (Some d, [(INFO, ''Starting categorical data cleaning process.'')]) of
        (st, None) \<Rightarrow> logging_info ''Categorical data cleaning completed successfully.'' st
      | (st, Some e) \<Rightarrow> (st, Some e))"
  by (simp add: categorical_body_def run_block_append logging_info_def split: prod.splits option.splits)


lemma categorical_frame_any:
  "\<exists>d'. fst (data_clean_categorical (Some d) fs) = Inr (Some d')
     \<and> columns d' = columns d
     \<and> (\<forall>k. map_of d' k = map_of d k \<or> map_of d' k = map_option (cat_transform k) (map_of d k))"
proof -
  obtain d' r where d': "run_block (map clean_categorical fs)
        (Some d, [(INFO, ''Starting categorical data cleaning process.'')]) =
        ((Some d', [(INFO, ''Starting categorical data cleaning process.'')]), r)"
    "columns d' = columns d"
    "\<forall>k. map_of d' k = map_of d k \<or> map_of d' k = map_option (cat_transform k) (map_of d k)"
    using run_categoricals_any by blast
  have "fst (fst (run_block (categorical_body fs) (Some d, []))) = Some d'"
    using d'(1) by (cases r) (simp_all add: run_categorical_body logging_info_def)
  then show ?thesis using d'(2,3) by (simp add: data_clean_categorical_caught)
qed

lemma categorical_frame_present:
  assumes "set fs \<subseteq> set (columns d)"
  shows "\<exists>d'. data_clean_categorical (Some d) fs =
          (Inr (Some d'), [(INFO, ''Starting categorical data cleaning process.''),
                           (INFO, ''Categorical data cleaning completed successfully.'')])
     \<and> columns d' = columns d
     \<and> (\<forall>k. map_of d' k = (if k \<in> set fs then map_option (cat_transform k) (map_of d k)
                             else map_of d k))"
proof -
  obtain d' where d': "run_block (map clean_categorical fs)
        (Some d, [(INFO, ''Starting categorical data cleaning process.'')]) =
        ((Some d', [(INFO, ''Starting categorical data cleaning process.'')]), None)"
    "columns d' = columns d"
    "\<forall>k. map_of d' k = (if k \<in> set fs then map_option (cat_transform k) (map_of d k)
                          else map_of d k)"
    using run_categoricals_present[OF assms] by blast
  have "run_block (categorical_body fs) (Some d, []) =
      ((Some d', [(INFO, ''Starting categorical data cleaning process.''),
                  (INFO, ''Categorical data cleaning completed successfully.'')]), None)"
    using d'(1) by (simp add: run_categorical_body logging_info_def)
  then show ?thesis using d'(2,3) by (simp add: data_clean_categorical_caught)
qed

lemma cells_cat_transform_transmission:
  "cells (cat_transform ''transmission'' s) =
     map (\<lambda>x. if x = Str ''0'' then Str ''Other'' else x) (cells s)"
  by (simp add: cat_transform_def replace_value_def)

lemma transmission_kept:
  assumes "map_of d' ''transmission'' = map_of d ''transmission''
           \<or> map_of d' ''transmission'' = map_option (cat_transform ''transmission'') (map_of d ''transmission'')"
    and "map_of d ''transmission'' = Some s"
  shows "\<exists>s'. map_of d' ''transmission'' = Some s' \<and> length (cells s') = length (cells s)
           \<and> (\<forall>i<length (cells s). cells s ! i \<noteq> Str ''0'' \<longrightarrow> cells s' ! i = cells s ! i)"
  using assms by (auto simp: cells_cat_transform_transmission)

text \<open>
  Claim C3. For a frame and a list of its columns, the categorical normalizer
  completes without error, keeps the columns, and in the listed column
  \<open>transmission\<close> replaces exactly the cells \<open>"0"\<close> by \<open>"Other"\<close>, while in every other
  listed column it replaces exactly the cells \<open>"na"\<close> by the missing marker (so a
  cell \<open>"0"\<close> there stays as it is); columns that are not listed are untouched.
\<close>

theorem categorical_sentinels:
  assumes "set fs \<subseteq> set (columns d)"
  shows "\<exists>d'. fst (data_clean_categorical (Some d) fs) = Inr (Some d')
     \<and> (ERROR, ''Error during categorical data cleaning'')
          \<notin> set (snd (data_clean_categorical (Some d) fs))
     \<and> columns d' = columns d
     \<and> (\<forall>s. ''transmission'' \<in> set fs \<and> map_of d ''transmission'' = Some s \<longrightarrow>
            map_of d' ''transmission'' =
              Some (s\<lparr>cells := map (\<lambda>x. if x = Str ''0'' then Str ''Other'' else x) (cells s)\<rparr>))
     \<and> (\<forall>k s. k \<in> set fs \<and> k \<noteq> ''transmission'' \<and> map_of d k = Some s \<longrightarrow>
            map_of d' k = Some (s\<lparr>cells := map (\<lambda>x. if x = Str ''na'' then NaN else x) (cells s)\<rparr>))
     \<and> (\<forall>k. k \<notin> set fs \<longrightarrow> map_of d' k = map_of d k)"
proof -
  obtain d' where d': "data_clean_categorical (Some d) fs =
          (Inr (Some d'), [(INFO, ''Starting categorical data cleaning process.''),
                           (INFO, ''Categorical data cleaning completed successfully.'')])"
    "columns d' = columns d"
    "\<forall>k. map_of d' k = (if k \<in> set fs then map_option (cat_transform k) (map_of d k)
                          else map_of d k)"
    using categorical_frame_present[OF assms] by blast
  have 1: "fst (data_clean_categorical (Some d) fs) = Inr (Some d')"
    and 2: "(ERROR, ''Error during categorical data cleaning'')
          \<notin> set (snd (data_clean_categorical (Some d) fs))"
    using d'(1) by simp_all
  have 3: "\<forall>s. ''transmission'' \<in> set fs \<and> map_of d ''transmission'' = Some s \<longrightarrow>
            map_of d' ''transmission'' =
              Some (s\<lparr>cells := map (\<lambda>x. if x = Str ''0'' then Str ''Other'' else x) (cells s)\<rparr>)"
    using d'(3)[rule_format, of "''transmission''"]
    by (auto simp: cat_transform_def replace_value_def)
  have 4: "\<forall>k s. k \<in> set fs \<and> k \<noteq> ''transmission'' \<and> map_of d k = Some s \<longrightarrow>
            map_of d' k = Some (s\<lparr>cells := map (\<lambda>x. if x = Str ''na'' then NaN else x) (cells s)\<rparr>)"
    using d'(3) by (auto simp: cat_transform_def replace_value_def)
  have 5: "\<forall>k. k \<notin> set fs \<longrightarrow> map_of d' k = map_of d k"
    using d'(3) by simp
  show ?thesis using 1 2 d'(2) 3 4 5 by (intro exI[of _ d'] conjI)
qed

theorem categorical_sentinels_witness:
  "\<exists>d'. fst (data_clean_categorical
             (Some [(''transmission'', \<lparr>dtype = Object, cells = [Str ''0'', Str ''na'']\<rparr>),
                    (''color'', \<lparr>dtype = Object, cells = [Str ''0'', Str ''na'']\<rparr>)])
             [''transmission'', ''color'']) = Inr (Some d')
     \<and> map_of d' ''transmission'' = Some \<lparr>dtype = Object, cells = [Str ''Other'', Str ''na'']\<rparr>
     \<and> map_of d' ''color'' = Some \<lparr>dtype = Object, cells = [Str ''0'', NaN]\<rparr>"
proof -
  let ?d = "[(''transmission'', \<lparr>dtype = Object, cells = [Str ''0'', Str ''na'']\<rparr>),
             (''color'', \<lparr>dtype = Object, cells = [Str ''0'', Str ''na'']\<rparr>)]"
  let ?fs = "[''transmission'', ''color'']"
  have sub: "set ?fs \<subseteq> set (columns ?d)" by (simp add: columns_def)
  obtain d' where 1: "fst (data_clean_categorical (Some ?d) ?fs) = Inr (Some d')"
    and 3: "\<forall>s. ''transmission'' \<in> set ?fs \<and> map_of ?d ''transmission'' = Some s \<longrightarrow>
            map_of d' ''transmission'' =
              Some (s\<lparr>cells := map (\<lambda>x. if x = Str ''0'' then Str ''Other'' else x) (cells s)\<rparr>)"
    and 4: "\<forall>k s. k \<in> set ?fs \<and> k \<noteq> ''transmission'' \<and> map_of ?d k = Some s \<longrightarrow>
            map_of d' k = Some (s\<lparr>cells := map (\<lambda>x. if x = Str ''na'' then NaN else x) (cells s)\<rparr>)"
    using categorical_sentinels[OF sub] by blast
  have "map_of d' ''transmission'' = Some \<lparr>dtype = Object, cells = [Str ''Other'', Str ''na'']\<rparr>"
    using 3[rule_format, of "\<lparr>dtype = Object, cells = [Str ''0'', Str ''na'']\<rparr>"] by simp
  moreover have "map_of d' ''color'' = Some \<lparr>dtype = Object, cells = [Str ''0'', NaN]\<rparr>"
    using 4[rule_format, of "''color''" "\<lparr>dtype = Object, cells = [Str ''0'', Str ''na'']\<rparr>"] by simp
  ultimately show ?thesis using 1 by blast
qed

section \<open>The cleaning pipeline\<close>

lemma divide_columns_Some:
  "\<exists>nf cf lg. divide_columns (Some d) = (Inr (nf, cf), lg) \<and> set cf \<subseteq> set (columns d)"
proof -
  obtain r where "numerical_of (Some d) (columns d) = Inr r"
    using numerical_of_columns[of "columns d" d] by auto
  then show ?thesis by (simp add: divide_columns_def map_exc_def)
qed

lemma data_cleaning_Some:
  "\<exists>d1 cf. fst (data_cleaning_numerical (Some d)) = Inr (Some d1)
     \<and> columns d1 = filter (\<lambda>n. n \<noteq> ''Unnamed: 0'') (columns d)
     \<and> (\<forall>k. k \<notin> {''Unnamed: 0'', ''date'', ''price'', ''mileage''} \<longrightarrow> map_of d1 k = map_of d k)
     \<and> set cf \<subseteq> set (columns d1)
     \<and> fst (data_cleaning (Some d)) = fst (data_clean_categorical (Some d1) cf)"
proof -
  obtain d1 where d1: "fst (data_cleaning_numerical (Some d)) = Inr (Some d1)"
    "columns d1 = filter (\<lambda>n. n \<noteq> ''Unnamed: 0'') (columns d)"
    "\<forall>k. k \<notin> {''Unnamed: 0'', ''date'', ''price'', ''mileage''} \<longrightarrow> map_of d1 k = map_of d k"
    using numerical_frame[of d] by blast
  obtain lg1 where n: "data_cleaning_numerical (Some d) = (Inr (Some d1), lg1)"
    using d1(1) by (cases "data_cleaning_numerical (Some d)") simp
  obtain nf cf lg2 where c: "divide_columns (Some d1) = (Inr (nf, cf), lg2)"
    "set cf \<subseteq> set (columns d1)"
    using divide_columns_Some[of d1] by blast
  have "fst (data_cleaning (Some d)) = fst (data_clean_categorical (Some d1) cf)"
    using n c(1) by (simp add: data_cleaning_def split: prod.splits)
  then show ?thesis using d1 c(2) by blast
qed

text \<open>
  Claim C10. Whatever the frame and the list of features, the categorical normalizer
  leaves every cell of \<open>transmission\<close> other than \<open>"0"\<close> as it is; and through the
  whole cleaning pipeline (numeric normalizer, column classifier, categorical
  normalizer) a cell \<open>"na"\<close> of \<open>transmission\<close> stays \<open>"na"\<close>.
\<close>

theorem transmission_na_survives:
  "(\<exists>d'. fst (data_clean_categorical (Some d) fs) = Inr (Some d')
      \<and> (\<forall>s. map_of d ''transmission'' = Some s \<longrightarrow>
           (\<exists>s'. map_of d' ''transmission'' = Some s' \<and> length (cells s') = length (cells s)
              \<and> (\<forall>i<length (cells s). cells s ! i \<noteq> Str ''0'' \<longrightarrow> cells s' ! i = cells s ! i))))
   \<and> (\<exists>d''. fst (data_cleaning (Some d)) = Inr (Some d'')
      \<and> (\<forall>s. map_of d ''transmission'' = Some s \<longrightarrow>
           (\<exists>s'. map_of d'' ''transmission'' = Some s' \<and> length (cells s') = length (cells s)
              \<and> (\<forall>i<length (cells s). cells s ! i = Str ''na'' \<longrightarrow> cells s' ! i = Str ''na''))))"
proof (rule conjI)
  obtain d' where d': "fst (data_clean_categorical (Some d) fs) = Inr (Some d')"
    "\<forall>k. map_of d' k = map_of d k \<or> map_of d' k = map_option (cat_transform k) (map_of d k)"
    using categorical_frame_any[of d fs] by blast
  show "\<exists>d'. fst (data_clean_categorical (Some d) fs) = Inr (Some d')
      \<and> (\<forall>s. map_of d ''transmission'' = Some s \<longrightarrow>
           (\<exists>s'. map_of d' ''transmission'' = Some s' \<and> length (cells s') = length (cells s)
              \<and> (\<forall>i<length (cells s). cells s ! i \<noteq> Str ''0'' \<longrightarrow> cells s' ! i = cells s ! i)))"
    using d'(1) transmission_kept[OF d'(2)[rule_format, of "''transmission''"]] by blast
next
  obtain d1 cf where d1: "\<forall>k. k \<notin> {''Unnamed: 0'', ''date'', ''price'', ''mileage''} \<longrightarrow> map_of d1 k = map_of d k"
    "fst (data_cleaning (Some d)) = fst (data_clean_categorical (Some d1) cf)"
    using data_cleaning_Some[of d] by blast
  obtain d'' where d'': "fst (data_clean_categorical (Some d1) cf) = Inr (Some d'')"
    "\<forall>k. map_of d'' k = map_of d1 k \<or> map_of d'' k = map_option (cat_transform k) (map_of d1 k)"
    using categorical_frame_any[of d1 cf] by blast
  have t: "map_of d1 ''transmission'' = map_of d ''transmission''"
    using d1(1)[rule_format, of "''transmission''"] by simp
  have "\<exists>s'. map_of d'' ''transmission'' = Some s' \<and> length (cells s') = length (cells s)
              \<and> (\<forall>i<length (cells s). cells s ! i = Str ''na'' \<longrightarrow> cells s' ! i = Str ''na'')"
    if m: "map_of d ''transmission'' = Some s" for s
  proof -
    obtain s' where s': "map_of d'' ''transmission'' = Some s'" "length (cells s') = length (cells s)"
      "\<forall>i<length (cells s). cells s ! i \<noteq> Str ''0'' \<longrightarrow> cells s' ! i = cells s ! i"
      using transmission_kept[OF d''(2)[rule_format, of "''transmission''"], of s] m t by auto
    have "cells s' ! i = Str ''na''" if "i < length (cells s)" "cells s ! i = Str ''na''" for i
      using s'(3)[rule_format, of i] that by simp
    then show ?thesis using s'(1,2) by blast
  qed
  then show "\<exists>d''. fst (data_cleaning (Some d)) = Inr (Some d'')
      \<and> (\<forall>s. map_of d ''transmission'' = Some s \<longrightarrow>
           (\<exists>s'. map_of d'' ''transmission'' = Some s' \<and> length (cells s') = length (cells s)
              \<and> (\<forall>i<length (cells s). cells s ! i = Str ''na'' \<longrightarrow> cells s' ! i = Str ''na'')))"
    using d1(2) d''(1) by (intro exI[of _ d''] conjI) auto
qed

theorem transmission_na_survives_witness:
  "\<exists>d'' s'. fst (data_cleaning
             (Some [(''date'', \<lparr>dtype = Object, cells = [Str ''na'', Str ''na'']\<rparr>),
                    (''transmission'', \<lparr>dtype = Object, cells = [Str ''0'', Str ''na'']\<rparr>)]))
           = Inr (Some d'')
     \<and> map_of d'' ''transmission'' = Some s' \<and> length (cells s') = 2
     \<and> cells s' ! 1 = Str ''na''"
proof -
  let ?d = "[(''date'', \<lparr>dtype = Object, cells = [Str ''na'', Str ''na'']\<rparr>),
             (''transmission'', \<lparr>dtype = Object, cells = [Str ''0'', Str ''na'']\<rparr>)]"
  let ?s = "\<lparr>dtype = Object, cells = [Str ''0'', Str ''na'']\<rparr>"
  obtain d'' where 1: "fst (data_cleaning (Some ?d)) = Inr (Some d'')"
    and 2: "\<forall>s. map_of ?d ''transmission'' = Some s \<longrightarrow>
           (\<exists>s'. map_of d'' ''transmission'' = Some s' \<and> length (cells s') = length (cells s)
              \<and> (\<forall>i<length (cells s). cells s ! i = Str ''na'' \<longrightarrow> cells s' ! i = Str ''na''))"
    using transmission_na_survives[of ?d "[]"] by blast
  obtain s' where "map_of d'' ''transmission'' = Some s'" "length (cells s') = length (cells ?s)"
    "\<forall>i<length (cells ?s). cells ?s ! i = Str ''na'' \<longrightarrow> cells s' ! i = Str ''na''"
    using 2[rule_format, of ?s] by auto
  then have "map_of d'' ''transmission'' = Some s' \<and> length (cells s') = 2 \<and> cells s' ! 1 = Str ''na''"
    by simp
  then show ?thesis using 1 by blast
qed

section \<open>Currency parsing\<close>

lemmas py_float_defs = py_float_def strip_def is_space_def parse_abs_def to_lower_def
  parse_floatnumber_def split_on_def parse_mantissa_def parse_exponent_def digit_val_def
  nat_of_digits_def scale10_def

lemmas stmt_defs = logging_info_def assign_def getitem_def setitem_def drop_column_def
  columns_def bind_exc_def map_exc_def replace_value_def astype_float_def str_replace_def
  can_use_str_def re_sub_def drop_unnamed_def

lemma py_float_2015: "py_float ''2015'' = Some (Num 2015)"
  by (simp add: py_float_defs)

lemma py_float_dollar: "py_float ''$12345'' = None"
  by (simp add: py_float_defs)

text \<open>
  Claim C1 at a frame whose every value would parse once its decoration is removed.
  The comma is removed, the dollar sign is not (the pattern \<open>$\<close> is an anchor), so
  \<open>astype(float)\<close> raises on \<open>"$12345"\<close>: the handler logs the error and returns the
  frame with \<open>price\<close> still text and \<open>mileage\<close> untouched. Only the substitution of
  \<open>"na"\<close> in \<open>price\<close> has taken effect.
\<close>

theorem currency_parsing_keeps_dollar:
  "data_cleaning_numerical
     (Some [(''date'', \<lparr>dtype = Object, cells = [Str ''2015'', Str ''2015'']\<rparr>),
            (''price'', \<lparr>dtype = Object, cells = [Str ''$12,345'', Str ''na'']\<rparr>),
            (''mileage'', \<lparr>dtype = Object, cells = [Str ''$12,345'', Str ''na'']\<rparr>)])
   = (Inr (Some [(''date'', \<lparr>dtype = Float64, cells = [Num 2015, Num 2015]\<rparr>),
                 (''price'', \<lparr>dtype = Object, cells = [Str ''$12345'', NaN]\<rparr>),
                 (''mileage'', \<lparr>dtype = Object, cells = [Str ''$12,345'', Str ''na'']\<rparr>)]),
      [(INFO, ''Starting numerical data cleaning process.''),
       (ERROR, ''Error during numerical data cleaning'')])"
  by (simp add: data_cleaning_numerical_def numerical_body_def try_return_data_def
      column_clean_def clean_column_def stmt_defs py_float_2015 py_float_dollar)

section \<open>Running the cleaning pipeline twice\<close>

text \<open>A column as \<open>astype(float)\<close> leaves it: float dtype and no string.\<close>

definition float_column :: "column \<Rightarrow> bool" where
  "float_column s = (dtype s = Float64 \<and> list_all (\<lambda>c. \<not> is_Str c) (cells s))"

text \<open>What \<open>str.replace(',', '', regex=True)\<close> makes of a column it accepts.\<close>

definition commas_removed :: "column \<Rightarrow> column" where
  "commas_removed s = s\<lparr>cells := map (str_replace_cell '','' '''') (cells s)\<rparr>"

lemma negate_not_Str: "is_Str (negate c) = is_Str c"
  by (cases c) simp_all

lemma parse_abs_not_Str: "parse_abs s = Some c \<Longrightarrow> \<not> is_Str c"
  by (auto simp: parse_abs_def split: if_splits)

lemma py_float_not_Str: "py_float s = Some c \<Longrightarrow> \<not> is_Str c"
  by (auto simp: py_float_def negate_not_Str split: list.splits if_splits
      dest: parse_abs_not_Str)

lemma to_float_not_Str: "to_float c = Some c' \<Longrightarrow> \<not> is_Str c'"
  by (cases c) (auto dest: py_float_not_Str)

lemma those_to_float_not_Str:
  "those (map to_float cs) = Some xs \<Longrightarrow> list_all (\<lambda>c. \<not> is_Str c) xs"
  by (induction cs arbitrary: xs) (auto split: option.splits dest: to_float_not_Str)

lemma those_to_float_id:
  "list_all (\<lambda>c. \<not> is_Str c) cs \<Longrightarrow> those (map to_float cs) = Some cs"
proof (induction cs)
  case Nil
  then show ?case by simp
next
  case (Cons c cs)
  then show ?case by (cases c) simp_all
qed

lemma astype_float_float_column: "astype_float s = Inr v \<Longrightarrow> float_column v"
  by (auto simp: astype_float_def float_column_def split: option.splits
      dest: those_to_float_not_Str)

lemma astype_float_ValueError: "astype_float s = Inl e \<Longrightarrow> e = ValueError"
  by (auto simp: astype_float_def split: option.splits)

lemma replace_Str_no_Str:
  "list_all (\<lambda>c. \<not> is_Str c) cs \<Longrightarrow> map (\<lambda>x. if x = Str t then new else x) cs = cs"
  by (induction cs) auto

lemma float_column_replace: "float_column s \<Longrightarrow> replace_value (Str t) new s = s"
  by (simp add: float_column_def replace_value_def replace_Str_no_Str)

lemma float_column_astype: "float_column s \<Longrightarrow> astype_float s = Inr s"
  by (cases s) (simp add: float_column_def astype_float_def those_to_float_id)

lemma float_column_no_str: "float_column s \<Longrightarrow> \<not> can_use_str s"
  by (simp add: float_column_def can_use_str_def)

lemma re_sub_comma: "re_sub '','' '''' t = filter (\<lambda>c. c \<noteq> CHR '','') t"
  by (induction t) (simp_all add: re_sub_def)

lemma re_sub_dollar: "re_sub ''$'' '''' t = t"
  by (auto simp: re_sub_def) (metis append_butlast_last_id)

lemma str_replace_cell_comma_idem:
  "str_replace_cell '','' '''' (str_replace_cell '','' '''' c) = str_replace_cell '','' '''' c"
  by (cases c) (simp_all add: re_sub_comma)

lemma str_replace_cell_dollar_comma:
  "str_replace_cell ''$'' '''' (str_replace_cell '','' '''' c) = str_replace_cell '','' '''' c"
  by (cases c) (simp_all add: re_sub_dollar)

lemma commas_removed_idem: "commas_removed (commas_removed s) = commas_removed s"
  by (simp add: commas_removed_def str_replace_cell_comma_idem)

lemma not_number_str_replace_cell: "\<not> is_number (str_replace_cell pat repl c)"
  by (cases c) simp_all

lemma can_use_str_commas_removed: "can_use_str s \<Longrightarrow> can_use_str (commas_removed s)"
  by (simp add: can_use_str_def commas_removed_def list_ex_iff not_number_str_replace_cell)

lemma str_replace_comma: 
  "str_replace '','' '''' s = (if can_use_str s then Inr (commas_removed s) else Inl AttributeError)"
  by (simp add: str_replace_def commas_removed_def)

lemma str_replace_dollar_commas_removed:
  "can_use_str s \<Longrightarrow> str_replace ''$'' '''' (commas_removed s) = Inr (commas_removed s)"
  using can_use_str_commas_removed[of s]
  by (simp add: str_replace_def) (simp add: commas_removed_def str_replace_cell_dollar_comma)

lemma setitem_setitem: "setitem (setitem d c a) c b = setitem d c b"
  by (simp add: setitem_def)

lemma setitem_same: "map_of d c = Some s \<Longrightarrow> setitem d c s = d"
  by (simp add: setitem_def update_triv)

lemma run_clean_column:
  "run_block (clean_column col) (Some d, lg) =
     (case map_of d col of
        None \<Rightarrow> ((Some d, lg), Some KeyError)
      | Some s \<Rightarrow>
          if \<not> can_use_str (replace_value (Str ''na'') NaN s)
          then ((Some (setitem d col (replace_value (Str ''na'') NaN s)), lg), Some AttributeError)
          else (case astype_float (commas_removed (replace_value (Str ''na'') NaN s)) of
                  Inl e \<Rightarrow>
                    ((Some (setitem d col (commas_removed (replace_value (Str ''na'') NaN s))), lg),
                     Some e)
                | Inr v \<Rightarrow> ((Some (setitem d col v), lg), None)))"
  by (simp add: clean_column_def map_exc_bind assign_getitem_Some map_of_setitem setitem_setitem
      str_replace_comma str_replace_dollar_commas_removed split: option.splits sum.splits)

text \<open>
  A price text is \<open>undecorated\<close> unless it reads \<open>na\<close> only once its commas are removed
  (as \<open>n,a\<close> does).
\<close>

fun undecorated :: "cell \<Rightarrow> bool" where
  "undecorated (Str t) = (re_sub '','' '''' t \<noteq> ''na'' \<or> t = ''na'')"
| "undecorated c = True"

definition no_decorated_na :: "frame \<Rightarrow> bool" where
  "no_decorated_na d =
     (case map_of d ''price'' of None \<Rightarrow> True | Some p \<Rightarrow> list_all undecorated (cells p))"

text \<open>
  A frame is \<open>settled\<close> when the numeric normalizer can change nothing in it: it stops
  at \<open>date\<close>, or rewrites \<open>date\<close> with what it holds and then stops inside \<open>price\<close>
  having rewritten it with what it holds.
\<close>

definition stuck_price :: "column \<Rightarrow> bool" where
  "stuck_price p =
     (replace_value (Str ''na'') NaN p = p
      \<and> (\<not> can_use_str p \<or> (commas_removed p = p \<and> astype_float p = Inl ValueError)))"

definition settled :: "frame \<Rightarrow> bool" where
  "settled n =
     (case map_of n ''date'' of
        None \<Rightarrow> True
      | Some s \<Rightarrow>
          astype_float (replace_value (Str ''na'') NaN s) = Inl ValueError
          \<or> (float_column s
              \<and> (case map_of n ''price'' of None \<Rightarrow> True | Some p \<Rightarrow> stuck_price p)))"

lemma numerical_rest_parts:
  "numerical_rest =
     [assign ''date''
        (\<lambda>data. bind_exc (getitem data ''date'')
           (\<lambda>s. astype_float (replace_value (Str ''na'') NaN s)))]
     @ clean_column ''price''
     @ (clean_column ''mileage''
        @ [logging_info ''Numerical data cleaning completed successfully.''])"
  by (simp add: numerical_rest_def column_clean_def)

lemma settled_numerical_rest:
  assumes "settled n"
  shows "fst (fst (run_block numerical_rest (Some n, lg))) = Some n"
proof (cases "map_of n ''date''")
  case None
  then show ?thesis by (simp add: numerical_rest_parts assign_getitem_Some)
next
  case (Some s)
  show ?thesis
  proof (cases "astype_float (replace_value (Str ''na'') NaN s) = Inl ValueError")
    case True
    then show ?thesis using Some by (simp add: numerical_rest_parts assign_getitem_Some)
  next
    case False
    then have s: "float_column s"
      and p: "case map_of n ''price'' of None \<Rightarrow> True | Some p \<Rightarrow> stuck_price p"
      using assms Some by (simp_all add: settled_def)
    have date: "assign ''date''
        (\<lambda>data. bind_exc (getitem data ''date'')
           (\<lambda>s. astype_float (replace_value (Str ''na'') NaN s))) (Some n, lg) = ((Some n, lg), None)"
      using Some s
      by (simp add: assign_getitem_Some float_column_replace float_column_astype setitem_same)
    have "fst (fst (run_block (clean_column ''price'') (Some n, lg))) = Some n
        \<and> snd (run_block (clean_column ''price'') (Some n, lg)) \<noteq> None"
    proof (cases "map_of n ''price''")
      case None
      then show ?thesis by (simp add: run_clean_column)
    next
      case (Some p)
      then have "stuck_price p" using p by simp
      then show ?thesis
        using Some by (auto simp: run_clean_column stuck_price_def setitem_same)
    qed
    then obtain lg' e where "run_block (clean_column ''price'') (Some n, lg) = ((Some n, lg'), Some e)"
      by (metis fst_conv snd_conv surj_pair option.exhaust)
    then show ?thesis
      by (simp add: numerical_rest_parts date run_block_append)
  qed
qed

lemma undecorated_no_na:
  "undecorated c \<Longrightarrow>
   str_replace_cell '','' '''' (if c = Str ''na'' then NaN else c) \<noteq> Str ''na''"
  by (cases c) auto

lemma replace_commas_removed:
  assumes "list_all undecorated (cells p)"
  shows "replace_value (Str ''na'') NaN (commas_removed (replace_value (Str ''na'') NaN p)) =
         commas_removed (replace_value (Str ''na'') NaN p)"
proof -
  have "map (\<lambda>x. if x = Str ''na'' then NaN else x)
          (map (str_replace_cell '','' '''') (map (\<lambda>x. if x = Str ''na'' then NaN else x) cs)) =
        map (str_replace_cell '','' '''') (map (\<lambda>x. if x = Str ''na'' then NaN else x) cs)"
    if "list_all undecorated cs" for cs
    using that by (induction cs) (simp_all add: undecorated_no_na)
  then show ?thesis using assms by (simp add: replace_value_def commas_removed_def)
qed

lemma run_mileage_keeps:
  "\<exists>n lg'. fst (run_block (clean_column ''mileage'' @ [logging_info msg]) (Some d, lg)) = (Some n, lg')
     \<and> map_of n ''date'' = map_of d ''date'' \<and> map_of n ''price'' = map_of d ''price''"
proof -
  have "keeps {''mileage''} d (fst (run_block (clean_column ''mileage'' @ [logging_info msg]) (Some d, lg)))"
  proof (rule run_block_fst_induct)
    show "keeps {''mileage''} d (Some d, lg)" by (simp add: keeps_def)
  next
    fix c st
    assume "c \<in> set (clean_column ''mileage'' @ [logging_info msg])" "keeps {''mileage''} d st"
    then show "keeps {''mileage''} d (fst (c st))"
      by (auto intro: keeps_clean_column keeps_logging_info)
  qed
  then show ?thesis by (auto simp: keeps_def)
qed

lemma numerical_rest_settled:
  assumes h: "no_decorated_na d"
    and n: "fst (fst (run_block numerical_rest (Some d, lg))) = Some n"
  shows "settled n"
proof (cases "map_of d ''date''")
  case None
  then have "n = d" using n by (simp add: numerical_rest_parts assign_getitem_Some)
  then show ?thesis using None by (simp add: settled_def)
next
  case (Some s0)
  show ?thesis
  proof (cases "astype_float (replace_value (Str ''na'') NaN s0)")
    case (Inl e)
    then have "n = d" using n Some by (simp add: numerical_rest_parts assign_getitem_Some)
    then show ?thesis using Some Inl astype_float_ValueError[OF Inl] by (simp add: settled_def)
  next
    case (Inr v)
    let ?d2 = "setitem d ''date'' v"
    have v: "float_column v" using Inr by (rule astype_float_float_column)
    have date: "assign ''date''
        (\<lambda>data. bind_exc (getitem data ''date'')
           (\<lambda>s. astype_float (replace_value (Str ''na'') NaN s))) (Some d, lg) = ((Some ?d2, lg), None)"
      using Some Inr by (simp add: assign_getitem_Some)
    have n2: "fst (fst (run_block (clean_column ''price''
        @ (clean_column ''mileage''
           @ [logging_info ''Numerical data cleaning completed successfully.'']))
        (Some ?d2, lg))) = Some n"
      using n by (simp add: numerical_rest_parts date)
    have d2d: "map_of ?d2 ''date'' = Some v" by (simp add: map_of_setitem)
    have d2p: "map_of ?d2 ''price'' = map_of d ''price''" by (simp add: map_of_setitem)
    show ?thesis
    proof (cases "map_of d ''price''")
      case None
      then have "n = ?d2" using n2 d2p by (simp add: run_block_append run_clean_column)
      then show ?thesis using None d2d d2p v by (simp add: settled_def)
    next
      case p0: (Some p0)
      let ?s1 = "replace_value (Str ''na'') NaN p0"
      let ?s2 = "commas_removed ?s1"
      have und: "list_all undecorated (cells p0)" using h p0 by (simp add: no_decorated_na_def)
      show ?thesis
      proof (cases "can_use_str ?s1")
        case False
        then have "n = setitem ?d2 ''price'' ?s1"
          using n2 d2p p0 by (simp add: run_block_append run_clean_column)
        then show ?thesis
          using False v by (simp add: settled_def map_of_setitem stuck_price_def replace_value_idem)
      next
        case True
        show ?thesis
        proof (cases "astype_float ?s2")
          case (Inl e)
          then have "n = setitem ?d2 ''price'' ?s2"
            using n2 d2p p0 True by (simp add: run_block_append run_clean_column)
          then show ?thesis
            using v Inl astype_float_ValueError[OF Inl] replace_commas_removed[OF und]
            by (simp add: settled_def map_of_setitem stuck_price_def commas_removed_idem)
        next
          case (Inr w)
          let ?d3 = "setitem ?d2 ''price'' w"
          have w: "float_column w" using Inr by (rule astype_float_float_column)
          have "fst (run_block (clean_column ''mileage''
                @ [logging_info ''Numerical data cleaning completed successfully.''])
                (Some ?d3, lg)) = (Some n, snd (fst (run_block (clean_column ''mileage''
                @ [logging_info ''Numerical data cleaning completed successfully.''])
                (Some ?d3, lg))))"
            using n2 d2p p0 True Inr
            by (simp add: run_block_append[of "clean_column ''price''"] run_clean_column
                prod_eq_iff)
          then have "map_of n ''date'' = map_of ?d3 ''date''" "map_of n ''price'' = map_of ?d3 ''price''"
            using run_mileage_keeps[of "''Numerical data cleaning completed successfully.''" ?d3 lg]
            by auto
          then show ?thesis
            using v w
            by (simp add: settled_def map_of_setitem stuck_price_def float_column_replace
                float_column_no_str)
        qed
      qed
    qed
  qed
qed

lemma cat_transform_other:
  "k \<noteq> ''transmission'' \<Longrightarrow> cat_transform k = replace_value (Str ''na'') NaN"
  by (rule ext) (simp add: cat_transform_def)

lemma settled_categorical:
  assumes "settled n"
    and "\<forall>k. map_of d' k = map_of n k \<or> map_of d' k = map_option (cat_transform k) (map_of n k)"
  shows "settled d'"
proof -
  have d: "map_of d' ''date'' = map_of n ''date'' \<or>
      map_of d' ''date'' = map_option (replace_value (Str ''na'') NaN) (map_of n ''date'')"
    using assms(2)[rule_format, of "''date''"] by (simp add: cat_transform_other)
  have p: "map_of d' ''price'' = map_of n ''price'' \<or>
      map_of d' ''price'' = map_option (replace_value (Str ''na'') NaN) (map_of n ''price'')"
    using assms(2)[rule_format, of "''price''"] by (simp add: cat_transform_other)
  show ?thesis
  proof (cases "map_of n ''date''")
    case None
    then show ?thesis using d by (auto simp: settled_def)
  next
    case (Some s)
    show ?thesis
    proof (cases "astype_float (replace_value (Str ''na'') NaN s) = Inl ValueError")
      case True
      then show ?thesis using d Some by (auto simp: settled_def replace_value_idem)
    next
      case False
      then have s: "float_column s"
        and sp: "case map_of n ''price'' of None \<Rightarrow> True | Some p \<Rightarrow> stuck_price p"
        using assms(1) Some by (simp_all add: settled_def)
      have d': "map_of d' ''date'' = Some s"
        using d Some s by (auto simp: float_column_replace)
      have "map_of d' ''price'' = map_of n ''price''"
        using p sp by (cases "map_of n ''price''") (auto simp: stuck_price_def)
      then show ?thesis using d' s sp by (simp add: settled_def)
    qed
  qed
qed

lemma numerical_of_filter:
  "set fs \<subseteq> set (columns d) \<Longrightarrow>
   numerical_of (Some d) fs =
     Inr (filter (\<lambda>k. \<exists>s. map_of d k = Some s \<and> dtype s \<noteq> Object) fs)"
proof (induction fs)
  case Nil
  then show ?case by simp
next
  case (Cons f fs)
  have "map_of d f \<noteq> None"
    using Cons.prems by (simp add: columns_def map_of_eq_None_iff)
  then obtain s where "map_of d f = Some s" by auto
  then show ?case using Cons by (simp add: getitem_def bind_exc_def map_exc_def)
qed

lemma divide_columns_categorical:
  "\<exists>nf cf lg. divide_columns (Some d) = (Inr (nf, cf), lg)
     \<and> set cf = {k \<in> set (columns d). \<exists>s. map_of d k = Some s \<and> dtype s = Object}"
proof -
  have "k \<in> set (columns d) \<Longrightarrow> \<exists>s. map_of d k = Some s" for k
    using map_of_eq_None_iff[of d k] by (auto simp: columns_def)
  then show ?thesis
    by (auto simp: divide_columns_def map_exc_def numerical_of_filter)
qed

lemma run_categoricals_fixed:
  "\<forall>k\<in>set fs. \<forall>s. map_of d k = Some s \<longrightarrow> cat_transform k s = s \<Longrightarrow>
   \<exists>r. run_block (map clean_categorical fs) (Some d, lg) = ((Some d, lg), r)"
proof (induction fs)
  case Nil
  then show ?case by simp
next
  case (Cons f fs)
  then show ?case
    by (cases "map_of d f") (auto simp: clean_categorical_Some setitem_same)
qed

lemma categorical_frame_fixed:
  assumes "\<forall>k\<in>set fs. \<forall>s. map_of d k = Some s \<longrightarrow> cat_transform k s = s"
  shows "fst (data_clean_categorical (Some d) fs) = Inr (Some d)"
proof -
  obtain r where "run_block (map clean_categorical fs)
      (Some d, [(INFO, ''Starting categorical data cleaning process.'')]) =
      ((Some d, [(INFO, ''Starting categorical data cleaning process.'')]), r)"
    using run_categoricals_fixed[OF assms] by blast
  then have "fst (fst (run_block (categorical_body fs) (Some d, []))) = Some d"
    by (cases r) (simp_all add: run_categorical_body logging_info_def)
  then show ?thesis by (simp add: data_clean_categorical_caught)
qed

lemma dtype_cat_transform: "dtype (cat_transform k s) = dtype s"
  by (simp add: cat_transform_def replace_value_def)

text \<open>
  Claim C7, as the code has it. Provided no text of \<open>price\<close> reads \<open>na\<close> only once its
  commas are removed, the cleaning pipeline (numeric normalizer, column classifier,
  categorical normalizer) run on its own output returns that output unchanged, cell
  for cell and dtype for dtype. The second run of the numeric normalizer stops where
  the first one stopped or earlier, having rewritten each column with what it holds;
  the classifier finds the same text columns, and the replacements of the categorical
  normalizer have nothing left to replace.
\<close>

theorem cleaning_idempotent:
  assumes h: "no_decorated_na d"
  shows "\<exists>d'. fst (data_cleaning (Some d)) = Inr (Some d')
     \<and> fst (data_cleaning (Some d')) = Inr (Some d')"
proof -
  let ?U = "''Unnamed: 0''"
  let ?d1 = "drop_column ?U d"
  obtain n where n: "fst (data_cleaning_numerical (Some d)) = Inr (Some n)"
    "columns n = filter (\<lambda>k. k \<noteq> ?U) (columns d)"
    using numerical_frame[of d] by blast
  have absent1: "?U \<notin> set (columns ?d1)" by (simp add: columns_drop_column)
  have "fst (data_cleaning_numerical (Some ?d1)) = Inr (Some n)"
    using n(1) numerical_drop_first[of d] by simp
  then have run1: "fst (fst (run_block numerical_rest
      (Some ?d1, [(INFO, ''Starting numerical data cleaning process.'')]))) = Some n"
    using absent1 by (simp add: data_cleaning_numerical_caught run_numerical_body_Some)
  have "no_decorated_na ?d1"
    using h by (simp add: no_decorated_na_def map_of_drop_column)
  then have sn: "settled n" using run1 by (rule numerical_rest_settled)
  obtain lg1 where n1: "data_cleaning_numerical (Some d) = (Inr (Some n), lg1)"
    using n(1) by (cases "data_cleaning_numerical (Some d)") simp
  obtain nf cf lg2 where c: "divide_columns (Some n) = (Inr (nf, cf), lg2)"
    "set cf = {k \<in> set (columns n). \<exists>s. map_of n k = Some s \<and> dtype s = Object}"
    using divide_columns_categorical[of n] by blast
  have "set cf \<subseteq> set (columns n)" using c(2) by auto
  then obtain d' where d': "fst (data_clean_categorical (Some n) cf) = Inr (Some d')"
    "columns d' = columns n"
    "\<forall>k. map_of d' k = (if k \<in> set cf then map_option (cat_transform k) (map_of n k)
                          else map_of n k)"
    using categorical_frame_present[of cf n] by (metis fst_conv)
  have first: "fst (data_cleaning (Some d)) = Inr (Some d')"
    using n1 c(1) d'(1)
    by (cases "data_clean_categorical (Some n) cf") (simp add: data_cleaning_def)
  have "settled d'"
    using sn d'(3) by (intro settled_categorical[of n d']) auto
  then have "fst (fst (run_block numerical_rest
      (Some d', [(INFO, ''Starting numerical data cleaning process.'')]))) = Some d'"
    by (rule settled_numerical_rest)
  moreover have "?U \<notin> set (columns d')" using d'(2) n(2) by simp
  ultimately have num2: "fst (data_cleaning_numerical (Some d')) = Inr (Some d')"
    by (simp add: data_cleaning_numerical_caught run_numerical_body_Some)
  then obtain lg3 where n3: "data_cleaning_numerical (Some d') = (Inr (Some d'), lg3)"
    by (cases "data_cleaning_numerical (Some d')") simp
  obtain nf' cf' lg4 where c': "divide_columns (Some d') = (Inr (nf', cf'), lg4)"
    "set cf' = {k \<in> set (columns d'). \<exists>s. map_of d' k = Some s \<and> dtype s = Object}"
    using divide_columns_categorical[of d'] by blast
  have "cat_transform k s = s" if k: "k \<in> set cf'" and s: "map_of d' k = Some s" for k s
  proof (cases "k \<in> set cf")
    case True
    then have "Some s = map_option (cat_transform k) (map_of n k)"
      using d'(3)[rule_format, of k] s by simp
    then show ?thesis by (cases "map_of n k") (auto simp: cat_transform_idem)
  next
    case False
    then have "map_of n k = Some s" using d'(3)[rule_format, of k] s by simp
    moreover have "dtype s = Object" "k \<in> set (columns n)" using k s c'(2) d'(2) by auto
    ultimately have "k \<in> set cf" using c(2) by simp
    then show ?thesis using False by simp
  qed
  then have "fst (data_clean_categorical (Some d') cf') = Inr (Some d')"
    by (intro categorical_frame_fixed) blast
  then have "fst (data_cleaning (Some d')) = Inr (Some d')"
    using n3 c'(1)
    by (cases "data_clean_categorical (Some d') cf'") (simp add: data_cleaning_def)
  then show ?thesis using first by blast
qed

lemma py_float_5: "py_float ''5'' = Some (Num 5)"
  by (simp add: py_float_defs)

lemma py_float_2: "py_float ''2'' = Some (Num 2)"
  by (simp add: py_float_defs)

lemma py_float_1000: "py_float ''1000'' = Some (Num 1000)"
  by (simp add: py_float_defs)

lemma py_float_na: "py_float ''na'' = None"
  by (simp add: py_float_defs)

lemmas cleaning_defs = data_cleaning_def data_cleaning_numerical_def numerical_body_def
  try_return_data_def column_clean_def clean_column_def divide_columns_def
  data_clean_categorical_def categorical_body_def clean_categorical_def

theorem cleaning_idempotent_witness:
  "no_decorated_na
     [(''date'', \<lparr>dtype = Object, cells = [Str ''2015'', Str ''2015'']\<rparr>),
      (''price'', \<lparr>dtype = Object, cells = [Str ''$12,345'', Str ''na'']\<rparr>),
      (''mileage'', \<lparr>dtype = Object, cells = [Str ''$12,345'', Str ''na'']\<rparr>),
      (''transmission'', \<lparr>dtype = Object, cells = [Str ''0'', Str ''na'']\<rparr>)]
   \<and> fst (data_cleaning (Some
     [(''date'', \<lparr>dtype = Object, cells = [Str ''2015'', Str ''2015'']\<rparr>),
      (''price'', \<lparr>dtype = Object, cells = [Str ''$12,345'', Str ''na'']\<rparr>),
      (''mileage'', \<lparr>dtype = Object, cells = [Str ''$12,345'', Str ''na'']\<rparr>),
      (''transmission'', \<lparr>dtype = Object, cells = [Str ''0'', Str ''na'']\<rparr>)])) =
     Inr (Some
     [(''date'', \<lparr>dtype = Float64, cells = [Num 2015, Num 2015]\<rparr>),
      (''price'', \<lparr>dtype = Object, cells = [Str ''$12345'', NaN]\<rparr>),
      (''mileage'', \<lparr>dtype = Object, cells = [Str ''$12,345'', NaN]\<rparr>),
      (''transmission'', \<lparr>dtype = Object, cells = [Str ''Other'', Str ''na'']\<rparr>)])
   \<and> fst (data_cleaning (Some
     [(''date'', \<lparr>dtype = Float64, cells = [Num 2015, Num 2015]\<rparr>),
      (''price'', \<lparr>dtype = Object, cells = [Str ''$12345'', NaN]\<rparr>),
      (''mileage'', \<lparr>dtype = Object, cells = [Str ''$12,345'', NaN]\<rparr>),
      (''transmission'', \<lparr>dtype = Object, cells = [Str ''Other'', Str ''na'']\<rparr>)])) =
     Inr (Some
     [(''date'', \<lparr>dtype = Float64, cells = [Num 2015, Num 2015]\<rparr>),
      (''price'', \<lparr>dtype = Object, cells = [Str ''$12345'', NaN]\<rparr>),
      (''mileage'', \<lparr>dtype = Object, cells = [Str ''$12,345'', NaN]\<rparr>),
      (''transmission'', \<lparr>dtype = Object, cells = [Str ''Other'', Str ''na'']\<rparr>)])"
proof -
  let ?d = "[(''date'', \<lparr>dtype = Object, cells = [Str ''2015'', Str ''2015'']\<rparr>),
      (''price'', \<lparr>dtype = Object, cells = [Str ''$12,345'', Str ''na'']\<rparr>),
      (''mileage'', \<lparr>dtype = Object, cells = [Str ''$12,345'', Str ''na'']\<rparr>),
      (''transmission'', \<lparr>dtype = Object, cells = [Str ''0'', Str ''na'']\<rparr>)]"
  have h: "no_decorated_na ?d" by (simp add: no_decorated_na_def re_sub_def)
  have 1: "fst (data_cleaning (Some ?d)) = Inr (Some
     [(''date'', \<lparr>dtype = Float64, cells = [Num 2015, Num 2015]\<rparr>),
      (''price'', \<lparr>dtype = Object, cells = [Str ''$12345'', NaN]\<rparr>),
      (''mileage'', \<lparr>dtype = Object, cells = [Str ''$12,345'', NaN]\<rparr>),
      (''transmission'', \<lparr>dtype = Object, cells = [Str ''Other'', Str ''na'']\<rparr>)])"
    by (simp add: cleaning_defs stmt_defs py_float_2015 py_float_dollar)
  show ?thesis
    using cleaning_idempotent[OF h] h 1 by auto
qed

text \<open>
  Claim C7 as stated fails on a dataset with a decorated \<open>na\<close>. In the first run the
  commas of \<open>n,a\<close> are removed, \<open>float("na")\<close> raises and the numeric normalizer stops
  with \<open>price\<close> still text and \<open>mileage\<close> untouched; the categorical normalizer then
  replaces the \<open>na\<close> it finds in \<open>price\<close>. On this output the second run converts both
  columns to float.
\<close>

theorem cleaning_twice_differs:
  "fst (data_cleaning (Some
     [(''date'', \<lparr>dtype = Object, cells = [Str ''2015'', Str ''2015'']\<rparr>),
      (''price'', \<lparr>dtype = Object, cells = [Str ''n,a'', Str ''5'']\<rparr>),
      (''mileage'', \<lparr>dtype = Object, cells = [Str ''1,000'', Str ''2'']\<rparr>)])) =
     Inr (Some
     [(''date'', \<lparr>dtype = Float64, cells = [Num 2015, Num 2015]\<rparr>),
      (''price'', \<lparr>dtype = Object, cells = [NaN, Str ''5'']\<rparr>),
      (''mileage'', \<lparr>dtype = Object, cells = [Str ''1,000'', Str ''2'']\<rparr>)])
   \<and> fst (data_cleaning (Some
     [(''date'', \<lparr>dtype = Float64, cells = [Num 2015, Num 2015]\<rparr>),
      (''price'', \<lparr>dtype = Object, cells = [NaN, Str ''5'']\<rparr>),
      (''mileage'', \<lparr>dtype = Object, cells = [Str ''1,000'', Str ''2'']\<rparr>)])) =
     Inr (Some
     [(''date'', \<lparr>dtype = Float64, cells = [Num 2015, Num 2015]\<rparr>),
      (''price'', \<lparr>dtype = Float64, cells = [NaN, Num 5]\<rparr>),
      (''mileage'', \<lparr>dtype = Float64, cells = [Num 1000, Num 2]\<rparr>)])"
  by (simp add: cleaning_defs stmt_defs py_float_2015 py_float_na py_float_5 py_float_2
      py_float_1000)

section \<open>Floats\<close>

lemma floor_rat_numeral:
  "\<lfloor>numeral a / numeral b :: rat\<rfloor> = numeral a div numeral b"
  using floor_divide_of_int_eq [of "numeral a" "numeral b", where ?'a = rat] by simp

lemma ceiling_rat_numeral:
  "\<lceil>numeral a / numeral b :: rat\<rceil> = - (- numeral a div numeral b)"
  using floor_divide_of_int_eq [of "- numeral a" "numeral b", where ?'a = rat]
  by (simp add: ceiling_def)

lemmas binary64_defs = binary64_def round_half_even_def pow2_def floor_log2_def
  floor_log2_nat.simps floor_rat_numeral ceiling_rat_numeral

lemma binary64_fifth: "binary64 (1 / 5) = 3602879701896397 / 18014398509481984"
  by (simp add: binary64_defs)

section \<open>The parameter reader\<close>

lemma read_params_mapping:
  "fst (read_params (ConfigDocument (YMap m))) =
     (case map_of m ''Data_Preparation'' of
        None \<Rightarrow> Inr (YFloat (binary64 (1 / 5)), YInt 42)
      | Some (YMap sec) \<Rightarrow>
          Inr (case map_of sec ''test_size'' of None \<Rightarrow> YFloat (binary64 (1 / 5)) | Some v \<Rightarrow> v,
               case map_of sec ''random_state'' of None \<Rightarrow> YInt 42 | Some v \<Rightarrow> v)
      | Some _ \<Rightarrow> Inl (SystemExit 1))"
  by (simp add: read_params_def dict_get_def bind_exc_def split: option.splits yaml.splits)

lemma read_params_not_mapping:
  "\<forall>m. doc \<noteq> YMap m \<Longrightarrow> fst (read_params (ConfigDocument doc)) = Inl (SystemExit 1)"
  by (cases doc) (simp_all add: read_params_def dict_get_def bind_exc_def)

lemma read_params_section_not_mapping:
  "map_of m ''Data_Preparation'' = Some v \<Longrightarrow> \<forall>sec. v \<noteq> YMap sec \<Longrightarrow>
   fst (read_params (ConfigDocument (YMap m))) = Inl (SystemExit 1)"
  by (cases v) (simp_all add: read_params_mapping)

lemma main_preparation_no_params:
  "fst (read_params params) = Inl (SystemExit 1) \<Longrightarrow>
   fst (main_preparation seeded global_rng file params writable) = 1"
  by (cases "file") (simp_all add: main_preparation_def load_data_def bind_exc_def)

text \<open>
  Claim C9, as the code has it. When the document is a mapping without the section,
  the reader returns the defaults, the float 0.2 and 42; when the section is itself a
  mapping, each key it lacks gets its default and each key it has keeps its value. In
  every other case the reader ends with \<open>SystemExit 1\<close> and the split run with exit
  status 1: a section that is not a mapping, a document that is not a mapping, and a
  file that is missing, unparseable or unreadable.
\<close>

theorem read_params_defaults:
  "(map_of m ''Data_Preparation'' = None \<longrightarrow>
      fst (read_params (ConfigDocument (YMap m))) = Inr (YFloat (binary64 (1 / 5)), YInt 42))
   \<and> (map_of m ''Data_Preparation'' = Some (YMap sec) \<longrightarrow>
      fst (read_params (ConfigDocument (YMap m))) =
        Inr (case map_of sec ''test_size'' of None \<Rightarrow> YFloat (binary64 (1 / 5)) | Some v \<Rightarrow> v,
             case map_of sec ''random_state'' of None \<Rightarrow> YInt 42 | Some v \<Rightarrow> v))
   \<and> (map_of m ''Data_Preparation'' = Some v \<and> (\<forall>sec. v \<noteq> YMap sec) \<longrightarrow>
      fst (read_params (ConfigDocument (YMap m))) = Inl (SystemExit 1)
      \<and> fst (main_preparation seeded global_rng file (ConfigDocument (YMap m)) writable) = 1)
   \<and> ((\<forall>m. doc \<noteq> YMap m) \<longrightarrow>
      fst (read_params (ConfigDocument doc)) = Inl (SystemExit 1)
      \<and> fst (main_preparation seeded global_rng file (ConfigDocument doc) writable) = 1)
   \<and> fst (read_params ConfigMissing) = Inl (SystemExit 1)
   \<and> fst (read_params ConfigUnparseable) = Inl (SystemExit 1)
   \<and> fst (read_params ConfigUnreadable) = Inl (SystemExit 1)
   \<and> fst (main_preparation seeded global_rng file ConfigMissing writable) = 1
   \<and> fst (main_preparation seeded global_rng file ConfigUnparseable writable) = 1
   \<and> fst (main_preparation seeded global_rng file ConfigUnreadable writable) = 1"
proof -
  have 1: "fst (read_params ConfigMissing) = Inl (SystemExit 1)"
    and 2: "fst (read_params ConfigUnparseable) = Inl (SystemExit 1)"
    and 3: "fst (read_params ConfigUnreadable) = Inl (SystemExit 1)"
    by (simp_all add: read_params_def)
  have 4: "fst (read_params (ConfigDocument (YMap m))) = Inl (SystemExit 1)
      \<and> fst (main_preparation seeded global_rng file (ConfigDocument (YMap m)) writable) = 1"
    if "map_of m ''Data_Preparation'' = Some v" "\<forall>sec. v \<noteq> YMap sec"
    using read_params_section_not_mapping[OF that]
      main_preparation_no_params[of "ConfigDocument (YMap m)" seeded global_rng "file" writable]
    by simp
  have 5: "fst (read_params (ConfigDocument doc)) = Inl (SystemExit 1)
      \<and> fst (main_preparation seeded global_rng file (ConfigDocument doc) writable) = 1"
    if "\<forall>m. doc \<noteq> YMap m"
    using read_params_not_mapping[OF that]
      main_preparation_no_params[of "ConfigDocument doc" seeded global_rng "file" writable]
    by simp
  show ?thesis
    using 1 2 3 4 5 main_preparation_no_params[OF 1, of seeded global_rng "file" writable]
      main_preparation_no_params[OF 2, of seeded global_rng "file" writable]
      main_preparation_no_params[OF 3, of seeded global_rng "file" writable]
    by (simp add: read_params_mapping)
qed

theorem read_params_defaults_witness:
  "fst (read_params (ConfigDocument (YMap [(''Training'', YNull)]))) =
     Inr (YFloat (3602879701896397 / 18014398509481984), YInt 42)
   \<and> fst (read_params (ConfigDocument
        (YMap [(''Data_Preparation'', YMap [(''test_size'', YFloat (1 / 4))])]))) =
       Inr (YFloat (1 / 4), YInt 42)
   \<and> fst (main_preparation (\<lambda>s n. [0..<n]) (\<lambda>n. [0..<n]) (Some [(), ()])
        (ConfigDocument (YMap [(''Data_Preparation'', YSeq [YInt 42])])) True) = 1
   \<and> fst (main_preparation (\<lambda>s n. [0..<n]) (\<lambda>n. [0..<n]) (Some [(), ()])
        (ConfigDocument (YStr ''test_size'')) True) = 1
   \<and> fst (main_preparation (\<lambda>s n. [0..<n]) (\<lambda>n. [0..<n]) (Some [(), ()]) ConfigMissing True) = 1"
  using read_params_defaults[of "[(''Training'', YNull)]" "[]" YNull "\<lambda>s n. [0..<n]" "\<lambda>n. [0..<n]"
          "Some [(), ()]" True "YStr ''test_size''"]
        read_params_defaults[of "[(''Data_Preparation'', YMap [(''test_size'', YFloat (1 / 4))])]"
          "[(''test_size'', YFloat (1 / 4))]" YNull "\<lambda>s n. [0..<n]" "\<lambda>n. [0..<n]" "Some [(), ()]"
          True YNull]
        read_params_defaults[of "[(''Data_Preparation'', YSeq [YInt 42])]" "[]" "YSeq [YInt 42]"
          "\<lambda>s n. [0..<n]" "\<lambda>n. [0..<n]" "Some [(), ()]" True YNull]
  by (simp add: binary64_fifth)

text \<open>
  Claim C9 as stated fails where the document parses but is not a mapping, or has the
  section but not as a mapping: an empty file loads to \<open>None\<close>, \<open>None.get\<close> raises
  \<open>AttributeError\<close>, and the blanket handler ends the run with exit status 1 instead of
  returning the defaults.
\<close>

theorem read_params_empty_document:
  "fst (read_params (ConfigDocument YNull)) = Inl (SystemExit 1)
   \<and> fst (read_params (ConfigDocument YNull)) \<noteq>
       Inr (YFloat (3602879701896397 / 18014398509481984), YInt 42)
   \<and> fst (main_preparation (\<lambda>s n. [0..<n]) (\<lambda>n. [0..<n]) (Some [(), ()])
        (ConfigDocument YNull) True) = 1
   \<and> fst (read_params (ConfigDocument (YMap [(''Data_Preparation'', YNull)]))) = Inl (SystemExit 1)
   \<and> fst (main_preparation (\<lambda>s n. [0..<n]) (\<lambda>n. [0..<n]) (Some [(), ()])
        (ConfigDocument (YMap [(''Data_Preparation'', YNull)])) True) = 1"
  by (simp add: read_params_def dict_get_def bind_exc_def main_preparation_def load_data_def)

section \<open>The split\<close>

lemma length_with_index: "length (with_index rows) = length rows"
  by (simp add: with_index_def)

lemma map_snd_with_index: "map snd (with_index rows) = rows"
  by (simp add: with_index_def)

lemma map_fst_with_index: "map fst (with_index rows) = [0..<length rows]"
  by (simp add: with_index_def)

lemma fst_nth_with_index: "i < length rows \<Longrightarrow> fst (with_index rows ! i) = i"
  by (simp add: with_index_def)

lemma iloc_in_range:
  "set ind \<subseteq> {0..<length data} \<Longrightarrow> iloc data ind = Inr (map (\<lambda>i. data ! i) ind)"
  by (auto simp: iloc_def list_all_iff)

lemma train_test_split_float:
  assumes perm: "mset (rng (length data)) = mset [0..<length data]"
    and r: "check_random_state seeded global_rng random_state = Inr rng"
    and f: "0 < f" "f < 1"
    and k: "nat \<lceil>binary64 (f * of_nat (length data))\<rceil> < length data"
  shows "train_test_split seeded global_rng data (YFloat f) random_state =
     Inr (map (\<lambda>i. data ! i)
            (drop (nat \<lceil>binary64 (f * of_nat (length data))\<rceil>) (rng (length data))),
          map (\<lambda>i. data ! i)
            (take (nat \<lceil>binary64 (f * of_nat (length data))\<rceil>) (rng (length data))))"
proof -
  let ?n = "length data" and ?p = "rng (length data)"
  let ?k = "nat \<lceil>binary64 (f * of_nat (length data))\<rceil>"
  have len: "length ?p = ?n" using perm by (metis length_upt mset_eq_length minus_nat.diff_0)
  have set: "set ?p = {0..<?n}" using perm by (metis mset_eq_setD set_upt)
  have v: "validate_shuffle_split ?n (YFloat f) = Inr (?n - ?k, ?k)"
    using f k by (simp add: validate_shuffle_split_def bind_exc_def)
  have t: "take (?n - ?k) (drop ?k ?p) = drop ?k ?p" using len by simp
  have i1: "iloc data (drop ?k ?p) = Inr (map (\<lambda>i. data ! i) (drop ?k ?p))"
    using set set_drop_subset[of ?k ?p] by (intro iloc_in_range) auto
  have i2: "iloc data (take ?k ?p) = Inr (map (\<lambda>i. data ! i) (take ?k ?p))"
    using set set_take_subset[of ?k ?p] by (intro iloc_in_range) auto
  show ?thesis
    unfolding train_test_split_def v r by (simp add: bind_exc_def t i1 i2)
qed

lemma check_random_state_int:
  "0 \<le> s \<Longrightarrow> s < 2 ^ 32 \<Longrightarrow> check_random_state seeded global_rng (YInt s) = Inr (seeded s)"
  by (simp add: check_random_state_def)

lemma train_test_split_no_train_row:
  "f \<le> 0 \<or> 1 \<le> f \<or> length data \<le> nat \<lceil>binary64 (f * of_nat (length data))\<rceil> \<Longrightarrow>
   train_test_split seeded global_rng data (YFloat f) random_state = Inl ValueError"
  by (auto simp: train_test_split_def validate_shuffle_split_def bind_exc_def)

lemma train_test_split_bad_seed:
  "s < 0 \<or> 2 ^ 32 \<le> s \<Longrightarrow>
   train_test_split seeded global_rng data test_size (YInt s) = Inl ValueError"
  by (cases "validate_shuffle_split (length data) test_size")
    (auto simp: train_test_split_def validate_shuffle_split_def check_random_state_def
      bind_exc_def split: yaml.splits if_splits)

lemma split_data_raises:
  "train_test_split seeded global_rng data test_size random_state = Inl ValueError \<Longrightarrow>
   split_data seeded global_rng data test_size random_state =
     (Inl (SystemExit 1), [(INFO, ''Splitting data''), (ERROR, ''Error splitting data'')])"
  by (simp add: split_data_def)

lemma main_preparation_no_split:
  "fst (read_params params) = Inr (test_size, random_state) \<Longrightarrow>
   fst (split_data seeded global_rng (with_index rows) test_size random_state) = Inl (SystemExit 1) \<Longrightarrow>
   main_preparation seeded global_rng (Some rows) params writable = (1, None)"
  by (simp add: main_preparation_def load_data_def bind_exc_def)

lemma mset_select_permutation:
  assumes "mset p = mset [0..<length xs]"
  shows "mset (map (\<lambda>i. xs ! i) (drop k p)) + mset (map (\<lambda>i. xs ! i) (take k p)) = mset xs"
proof -
  have "mset (map (\<lambda>i. xs ! i) (drop k p)) + mset (map (\<lambda>i. xs ! i) (take k p)) =
        mset (map (\<lambda>i. xs ! i) (take k p @ drop k p))"
    by (simp only: map_append mset_append union_commute)
  also have "\<dots> = image_mset (\<lambda>i. xs ! i) (mset p)"
    by (simp only: append_take_drop_id mset_map)
  also have "\<dots> = image_mset (\<lambda>i. xs ! i) (mset [0..<length xs])"
    using assms by simp
  also have "\<dots> = mset (map (\<lambda>i. xs ! i) [0..<length xs])" by simp
  also have "\<dots> = mset xs" by (simp add: map_nth)
  finally show ?thesis .
qed

lemma split_data_float:
  assumes "mset (seeded s (length rows)) = mset [0..<length rows]"
    and "0 < f" "f < 1" "0 \<le> s" "s < 2 ^ 32"
    and "nat \<lceil>binary64 (f * of_nat (length rows))\<rceil> < length rows"
  shows "fst (split_data seeded global_rng (with_index rows) (YFloat f) (YInt s)) =
     Inr (map (\<lambda>i. with_index rows ! i)
            (drop (nat \<lceil>binary64 (f * of_nat (length rows))\<rceil>) (seeded s (length rows))),
          map (\<lambda>i. with_index rows ! i)
            (take (nat \<lceil>binary64 (f * of_nat (length rows))\<rceil>) (seeded s (length rows))))"
proof -
  have "train_test_split seeded global_rng (with_index rows) (YFloat f) (YInt s) =
     Inr (map (\<lambda>i. with_index rows ! i)
            (drop (nat \<lceil>binary64 (f * of_nat (length rows))\<rceil>) (seeded s (length rows))),
          map (\<lambda>i. with_index rows ! i)
            (take (nat \<lceil>binary64 (f * of_nat (length rows))\<rceil>) (seeded s (length rows))))"
    using train_test_split_float[of "seeded s" "with_index rows" seeded global_rng "YInt s" f]
      check_random_state_int[of s seeded global_rng] assms
    by (simp add: length_with_index)
  then show ?thesis by (simp add: split_data_def)
qed

text \<open>
  Claim C4, as the code has it. The permutation that numpy's generator draws for a
  seed is a parameter, assumed to be a permutation of the row positions. For a
  fraction strictly between 0 and 1, an integer seed in \<open>[0, 2^32)\<close> and a dataset that
  leaves at least one row for the train set (the ceiling of the float product of
  fraction and number of rows is less than the number of rows), the split returns a
  train and a test set that together hold exactly the rows of the dataset, no row
  (identified by its index label) in both. In every other case of a float fraction
  and an integer seed (fraction outside the open interval, no row left for the train
  set, seed outside the range) the split logs an error and ends with \<open>SystemExit 1\<close>,
  and a run that read this fraction and seed from its parameters ends with exit
  status 1 and writes nothing.
\<close>

theorem split_partitions_rows:
  "(mset (seeded s (length rows)) = mset [0..<length rows]
      \<and> 0 < f \<and> f < 1 \<and> 0 \<le> s \<and> s < 2 ^ 32
      \<and> nat \<lceil>binary64 (f * of_nat (length rows))\<rceil> < length rows \<longrightarrow>
    (\<exists>train test.
      fst (split_data seeded global_rng (with_index rows) (YFloat f) (YInt s)) = Inr (train, test)
      \<and> mset (map snd train) + mset (map snd test) = mset rows
      \<and> mset train + mset test = mset (with_index rows)
      \<and> set (map fst train) \<inter> set (map fst test) = {}
      \<and> distinct (map fst (train @ test))))
   \<and> (f \<le> 0 \<or> 1 \<le> f \<or> length rows \<le> nat \<lceil>binary64 (f * of_nat (length rows))\<rceil>
        \<or> s < 0 \<or> 2 ^ 32 \<le> s \<longrightarrow>
      split_data seeded global_rng (with_index rows) (YFloat f) (YInt s) =
        (Inl (SystemExit 1), [(INFO, ''Splitting data''), (ERROR, ''Error splitting data'')])
      \<and> (fst (read_params params) = Inr (YFloat f, YInt s) \<longrightarrow>
           main_preparation seeded global_rng (Some rows) params writable = (1, None)))"
proof (intro conjI impI; (elim conjE)?)
  assume perm: "mset (seeded s (length rows)) = mset [0..<length rows]"
    and f: "0 < f" "f < 1" and s: "0 \<le> s" "s < 2 ^ 32"
    and k: "nat \<lceil>binary64 (f * of_nat (length rows))\<rceil> < length rows"
  let ?data = "with_index rows"
  let ?p = "seeded s (length rows)" and ?k = "nat \<lceil>binary64 (f * of_nat (length rows))\<rceil>"
  let ?train = "map (\<lambda>i. ?data ! i) (drop ?k ?p)" and ?test = "map (\<lambda>i. ?data ! i) (take ?k ?p)"
  have p: "mset ?p = mset [0..<length ?data]" using perm by (simp add: length_with_index)
  have 1: "fst (split_data seeded global_rng ?data (YFloat f) (YInt s)) = Inr (?train, ?test)"
    using perm f s k by (rule split_data_float)
  have 3: "mset ?train + mset ?test = mset ?data"
    using p by (rule mset_select_permutation)
  have "image_mset snd (mset ?train + mset ?test) = image_mset snd (mset ?data)"
    using 3 by simp
  then have 2: "mset (map snd ?train) + mset (map snd ?test) = mset rows"
    using map_snd_with_index[of rows] by (metis image_mset_union mset_map)
  have dp: "distinct ?p" using perm by (metis distinct_upt mset_eq_imp_distinct_iff)
  have setp: "set ?p = {0..<length rows}" using perm by (metis mset_eq_setD set_upt)
  have fst_sel: "map fst (map (\<lambda>i. ?data ! i) is) = is" if "set is \<subseteq> set ?p" for "is"
    using that setp by (induction "is") (auto simp: fst_nth_with_index)
  have ft: "map fst ?train = drop ?k ?p" by (rule fst_sel) (rule set_drop_subset)
  have fs: "map fst ?test = take ?k ?p" by (rule fst_sel) (rule set_take_subset)
  have 4: "set (map fst ?train) \<inter> set (map fst ?test) = {}"
    unfolding ft fs using dp by (metis append_take_drop_id distinct_append inf_commute)
  have 5: "distinct (map fst (?train @ ?test))"
    unfolding map_append ft fs using dp
    by (metis append_take_drop_id distinct_append inf_commute)
  show "\<exists>train test.
      fst (split_data seeded global_rng (with_index rows) (YFloat f) (YInt s)) = Inr (train, test)
      \<and> mset (map snd train) + mset (map snd test) = mset rows
      \<and> mset train + mset test = mset (with_index rows)
      \<and> set (map fst train) \<inter> set (map fst test) = {}
      \<and> distinct (map fst (train @ test))"
    using 1 2 3 4 5 by blast
next
  assume bad: "f \<le> 0 \<or> 1 \<le> f \<or> length rows \<le> nat \<lceil>binary64 (f * of_nat (length rows))\<rceil>
        \<or> s < 0 \<or> 2 ^ 32 \<le> s"
  have "train_test_split seeded global_rng (with_index rows) (YFloat f) (YInt s) = Inl ValueError"
    using bad train_test_split_no_train_row[of f "with_index rows" seeded global_rng "YInt s"]
      train_test_split_bad_seed[of s seeded global_rng "with_index rows" "YFloat f"]
    by (auto simp: length_with_index)
  then show e: "split_data seeded global_rng (with_index rows) (YFloat f) (YInt s) =
      (Inl (SystemExit 1), [(INFO, ''Splitting data''), (ERROR, ''Error splitting data'')])"
    by (rule split_data_raises)
  have "fst (split_data seeded global_rng (with_index rows) (YFloat f) (YInt s)) =
      Inl (SystemExit 1)"
    by (simp add: e)
  moreover assume "fst (read_params params) = Inr (YFloat f, YInt s)"
  ultimately show "main_preparation seeded global_rng (Some rows) params writable = (1, None)"
    by (intro main_preparation_no_split)
qed

theorem split_partitions_rows_witness:
  "(\<exists>train test.
      fst (split_data (\<lambda>s n. rev [0..<n]) (\<lambda>n. [0..<n]) (with_index [''a'', ''b'', ''c''])
             (YFloat (3602879701896397 / 18014398509481984)) (YInt 42)) = Inr (train, test)
      \<and> mset (map snd train) + mset (map snd test) = mset [''a'', ''b'', ''c'']
      \<and> set (map fst train) \<inter> set (map fst test) = {})
   \<and> main_preparation (\<lambda>s n. rev [0..<n]) (\<lambda>n. [0..<n]) (Some [''a''])
        (ConfigDocument (YMap [])) True = (1, None)
   \<and> fst (split_data (\<lambda>s n. rev [0..<n]) (\<lambda>n. [0..<n]) (with_index [''a'', ''b'', ''c''])
          (YFloat (3602879701896397 / 18014398509481984)) (YInt 4294967296)) = Inl (SystemExit 1)"
proof -
  have k3: "nat \<lceil>binary64 (3602879701896397 / 18014398509481984 * 3)\<rceil> = 1"
    and k1: "nat \<lceil>binary64 (3602879701896397 / 18014398509481984 * 1)\<rceil> = 1"
    by (simp_all add: binary64_defs)
  have r: "fst (read_params (ConfigDocument (YMap []))) =
      Inr (YFloat (3602879701896397 / 18014398509481984), YInt 42)"
    by (simp add: read_params_def dict_get_def bind_exc_def binary64_fifth)
  show ?thesis
    using split_partitions_rows[of "\<lambda>s n. rev [0..<n]" 42 "[''a'', ''b'', ''c'']"
        "3602879701896397 / 18014398509481984" "\<lambda>n. [0..<n]" "ConfigDocument (YMap [])" True]
      split_partitions_rows[of "\<lambda>s n. rev [0..<n]" 42 "[''a'']"
        "3602879701896397 / 18014398509481984" "\<lambda>n. [0..<n]" "ConfigDocument (YMap [])" True]
      split_partitions_rows[of "\<lambda>s n. rev [0..<n]" 4294967296 "[''a'', ''b'', ''c'']"
        "3602879701896397 / 18014398509481984" "\<lambda>n. [0..<n]" "ConfigDocument (YMap [])" True]
      k3 k1 r
    by auto
qed

text \<open>
  Claim C4 as stated fails on a dataset too small to leave a row for the train set, and
  for a seed outside \<open>[0, 2^32)\<close>. With one row and the float 0.2 the test set takes
  \<open>ceil(0.2) = 1\<close> row, \<open>train_test_split\<close> raises \<open>ValueError\<close> and \<open>split_data\<close> exits with
  status 1; with three rows and seed -1 it raises and exits too.
\<close>

theorem split_one_row_exits:
  "fst (split_data (\<lambda>s n. rev [0..<n]) (\<lambda>n. [0..<n]) (with_index [''a''])
          (YFloat (3602879701896397 / 18014398509481984)) (YInt 42)) = Inl (SystemExit 1)
   \<and> fst (split_data (\<lambda>s n. rev [0..<n]) (\<lambda>n. [0..<n]) (with_index [''a'', ''b'', ''c''])
          (YFloat (3602879701896397 / 18014398509481984)) (YInt (- 1))) = Inl (SystemExit 1)"
proof -
  have k3: "nat \<lceil>binary64 (3602879701896397 / 18014398509481984 * 3)\<rceil> = 1"
    and k1: "nat \<lceil>binary64 (3602879701896397 / 18014398509481984 * 1)\<rceil> = 1"
    by (simp_all add: binary64_defs)
  show ?thesis
    using k1 k3
    by (simp add: split_data_def train_test_split_def validate_shuffle_split_def
        check_random_state_def bind_exc_def with_index_def)
qed

lemma split_data_seeded:
  "split_data seeded global_rng data test_size (YInt s) =
   split_data seeded global_rng' data test_size (YInt s)"
  by (simp add: split_data_def train_test_split_def check_random_state_def)

lemma split_data_bool_seed:
  "split_data seeded global_rng data test_size (YBool True) =
     split_data seeded global_rng data test_size (YInt 1)
   \<and> split_data seeded global_rng data test_size (YBool False) =
     split_data seeded global_rng data test_size (YInt 0)"
  by (simp add: split_data_def train_test_split_def check_random_state_def)

lemma split_unseeded_uses_global_generator:
  "fst (split_data (\<lambda>s n. [0..<n]) (\<lambda>n. [0..<n]) (with_index [''a'', ''b''])
          (YFloat (3602879701896397 / 18014398509481984)) YNull) \<noteq>
   fst (split_data (\<lambda>s n. [0..<n]) (\<lambda>n. rev [0..<n]) (with_index [''a'', ''b''])
          (YFloat (3602879701896397 / 18014398509481984)) YNull)"
proof -
  have "nat \<lceil>binary64 (3602879701896397 / 18014398509481984 * 2)\<rceil> = 1"
    by (simp add: binary64_defs)
  then show ?thesis
    by (simp add: split_data_def train_test_split_def validate_shuffle_split_def
        check_random_state_def bind_exc_def with_index_def iloc_def)
qed

text \<open>
  Claim C5. With an integer seed the split consults the generator seeded with it and
  never numpy's global generator, whose hidden state is all that can differ between
  two invocations on the same dataset, fraction and seed: the split, and the run that
  read this seed from its parameters, return the same whatever that state is. (Without
  a seed the result does follow the global generator, as
  \<open>split_unseeded_uses_global_generator\<close> shows.)
\<close>

theorem split_deterministic:
  "split_data seeded global_rng data test_size (YInt s) =
     split_data seeded global_rng' data test_size (YInt s)
   \<and> (fst (read_params params) = Inr (test_size, YInt s) \<longrightarrow>
        main_preparation seeded global_rng file params writable =
        main_preparation seeded global_rng' file params writable)"
proof -
  have "main_preparation seeded global_rng file params writable =
        main_preparation seeded global_rng' file params writable"
    if "fst (read_params params) = Inr (test_size, YInt s)"
    using that
    by (cases "file")
      (simp_all add: main_preparation_def load_data_def bind_exc_def
        split_data_seeded[of seeded global_rng _ test_size s global_rng'])
  then show ?thesis
    using split_data_seeded[of seeded global_rng data test_size s global_rng'] by simp
qed

theorem split_deterministic_witness:
  "main_preparation (\<lambda>s n. rev [0..<n]) (\<lambda>n. [0..<n]) (Some [''a'', ''b'', ''c''])
      (ConfigDocument (YMap [])) True =
   main_preparation (\<lambda>s n. rev [0..<n]) (\<lambda>n. rev [0..<n]) (Some [''a'', ''b'', ''c''])
      (ConfigDocument (YMap [])) True"
proof -
  have "fst (read_params (ConfigDocument (YMap []))) = Inr (YFloat (binary64 (1 / 5)), YInt 42)"
    by (simp add: read_params_def dict_get_def bind_exc_def)
  then show ?thesis
    using split_deterministic[of "\<lambda>s n. rev [0..<n]" "\<lambda>n. [0..<n]" "[]" "YFloat (binary64 (1 / 5))" 42
        "\<lambda>n. rev [0..<n]" "ConfigDocument (YMap [])" "Some [''a'', ''b'', ''c'']" True]
    by blast
qed

text \<open>
  Claim C6, as the code has it. The test set gets the ceiling of the float product of
  fraction and number of rows, not its rounding, and the train set the remaining rows;
  for 100 rows and the float 0.2 the product is exactly 20, so the test set has 20 rows
  and the train set 80.
\<close>

theorem split_sizes:
  "(mset (seeded s (length rows)) = mset [0..<length rows]
      \<and> 0 < f \<and> f < 1 \<and> 0 \<le> s \<and> s < 2 ^ 32
      \<and> nat \<lceil>binary64 (f * of_nat (length rows))\<rceil> < length rows \<longrightarrow>
    (\<exists>train test.
      fst (split_data seeded global_rng (with_index rows) (YFloat f) (YInt s)) = Inr (train, test)
      \<and> length test = nat \<lceil>binary64 (f * of_nat (length rows))\<rceil>
      \<and> length train = length rows - nat \<lceil>binary64 (f * of_nat (length rows))\<rceil>))
   \<and> (mset (seeded s (length rows)) = mset [0..<length rows]
      \<and> 0 \<le> s \<and> s < 2 ^ 32 \<and> length rows = 100 \<longrightarrow>
    (\<exists>train test.
      fst (split_data seeded global_rng (with_index rows) (YFloat (binary64 (1 / 5))) (YInt s)) =
        Inr (train, test)
      \<and> length test = 20 \<and> length train = 80))"
proof -
  have sz: "\<exists>train test.
      fst (split_data seeded global_rng (with_index rows) (YFloat f) (YInt s)) = Inr (train, test)
      \<and> length test = nat \<lceil>binary64 (f * of_nat (length rows))\<rceil>
      \<and> length train = length rows - nat \<lceil>binary64 (f * of_nat (length rows))\<rceil>"
    if perm: "mset (seeded s (length rows)) = mset [0..<length rows]"
      and f: "0 < f" "f < 1" and s: "0 \<le> s" "s < 2 ^ 32"
      and k: "nat \<lceil>binary64 (f * of_nat (length rows))\<rceil> < length rows" for f
  proof -
    have len: "length (seeded s (length rows)) = length rows"
      using perm by (metis length_upt mset_eq_length minus_nat.diff_0)
    show ?thesis
      using split_data_float[of seeded s rows f global_rng] perm f s len k by simp
  qed
  have k100: "nat \<lceil>binary64 (binary64 (1 / 5) * of_nat 100)\<rceil> = 20"
    by (simp add: binary64_defs)
  have f02: "0 < binary64 (1 / 5)" "binary64 (1 / 5) < 1"
    by (simp_all add: binary64_fifth)
  have "\<exists>train test.
      fst (split_data seeded global_rng (with_index rows) (YFloat (binary64 (1 / 5))) (YInt s)) =
        Inr (train, test)
      \<and> length test = 20 \<and> length train = 80"
    if "mset (seeded s (length rows)) = mset [0..<length rows]" "0 \<le> s" "s < 2 ^ 32"
      "length rows = 100"
    using sz[of "binary64 (1 / 5)"] that f02 k100 by simp
  then show ?thesis using sz[of f] by blast
qed

theorem split_sizes_witness:
  "(\<exists>train test.
      fst (split_data (\<lambda>s n. rev [0..<n]) (\<lambda>n. [0..<n]) (with_index [''a'', ''b'', ''c''])
             (YFloat (3602879701896397 / 18014398509481984)) (YInt 42)) = Inr (train, test)
      \<and> length test = 1 \<and> length train = 2)
   \<and> (\<exists>train test.
      fst (split_data (\<lambda>s n. rev [0..<n]) (\<lambda>n. [0..<n]) (with_index (replicate 100 ''r''))
             (YFloat (3602879701896397 / 18014398509481984)) (YInt 42)) = Inr (train, test)
      \<and> length test = 20 \<and> length train = 80)"
proof -
  have k3: "nat \<lceil>binary64 (3602879701896397 / 18014398509481984 * 3)\<rceil> = 1"
    by (simp add: binary64_defs)
  show ?thesis
    using split_sizes[of "\<lambda>s n. rev [0..<n]" 42 "[''a'', ''b'', ''c'']"
        "3602879701896397 / 18014398509481984" "\<lambda>n. [0..<n]"]
      split_sizes[of "\<lambda>s n. rev [0..<n]" 42 "replicate 100 ''r''"
        "3602879701896397 / 18014398509481984" "\<lambda>n. [0..<n]"]
      k3
    by (auto simp add: binary64_fifth)
qed

text \<open>
  Claim C6 as stated fails wherever the product has a fractional part below one half:
  for 11 rows and the float 0.2 the product is 2.2, its rounding is 2, and the test set
  gets 3 rows, the train set 8.
\<close>

theorem split_size_not_rounded:
  "(\<exists>train test.
      fst (split_data (\<lambda>s n. rev [0..<n]) (\<lambda>n. [0..<n]) (with_index (replicate 11 ''r''))
             (YFloat (3602879701896397 / 18014398509481984)) (YInt 42)) = Inr (train, test)
      \<and> length test = 3 \<and> length train = 8)
   \<and> round (binary64 (3602879701896397 / 18014398509481984 * 11)) = 2"
proof -
  have k: "nat \<lceil>binary64 (3602879701896397 / 18014398509481984 * 11)\<rceil> = 3"
    by (simp add: binary64_defs)
  have r: "round (binary64 (3602879701896397 / 18014398509481984 * 11)) = 2"
    by (simp add: binary64_defs round_def)
  have "fst (split_data (\<lambda>s n. rev [0..<n]) (\<lambda>n. [0..<n]) (with_index (replicate 11 ''r''))
             (YFloat (3602879701896397 / 18014398509481984)) (YInt 42)) =
     Inr (map (\<lambda>i. with_index (replicate 11 ''r'') ! i) (drop 3 (rev [0..<11])),
          map (\<lambda>i. with_index (replicate 11 ''r'') ! i) (take 3 (rev [0..<11])))"
    using split_data_float[of "\<lambda>s n. rev [0..<n]" 42 "replicate 11 ''r''"
        "3602879701896397 / 18014398509481984" "\<lambda>n. [0..<n]"] k
    by simp
  then show ?thesis using r by simp
qed

end
